theory Spec2Isabelle
  imports Complex_Main
begin

section \<open>Values exchanged with the collaborators of \<open>record.py\<close>\<close>

text \<open>
  The recorder is one Python module. Its session controller \<open>record_session\<close> talks to
  a pose source (\<open>HandTracker\<close>), the clock, the file system, the image encoder and the
  disk monitor. None of these is code of the module, so each call into them is answered by
  an explicit environment script; everything the module itself computes is a HOL function.

  Python floats are idealised as reals, except in the resource monitor, where the rounding
  of a double decides which branch the loop takes and is modelled. An \<open>exn\<close> stands for
  an instance of a subclass of Python's \<open>Exception\<close>; for these the handlers
  \<open>except Exception\<close> and the bare \<open>except:\<close> of the module coincide.
\<close>

datatype exn =
  AttributeError | TypeError | IndexError | ZeroDivisionError | OSError | CvError | SourceError

text \<open>
  An attribute of a duck-typed detection object: missing (\<open>hasattr\<close> is false),
  present with value \<open>None\<close>, or present with a value.
\<close>

datatype 'a attr = Absent | PyNone | Val 'a

record hand =
  label :: "string attr"
  lm_score :: "real attr"
  landmarks :: "real list list attr"
  world_landmarks :: "real list list attr"
  xyz :: "real list attr"

record body =
  keypoints :: "real list list attr"
  scores :: "real list attr"

text \<open>
  The auxiliary bag is \<open>None\<close> or a dictionary; only its entry \<open>"body"\<close> is read,
  whose value is \<open>None\<close> or a body detection.
\<close>

type_synonym bag = "(string \<times> body option) list option"

type_synonym image = "nat list"

type_synonym pulled = "image option \<times> hand list \<times> bag"

datatype json =
    JNull
  | JInt int
  | JNum real
  | JStr string
  | JList "json list"
  | JObj "(string \<times> json) list"

definition jget :: "string \<Rightarrow> json \<Rightarrow> json option" where
  "jget k j = (case j of JObj kvs \<Rightarrow> map_of kvs k | _ \<Rightarrow> None)"

definition jlen :: "json \<Rightarrow> nat option" where
  "jlen j = (case j of JList xs \<Rightarrow> Some (length xs) | _ \<Rightarrow> None)"

definition json_vec :: "real list \<Rightarrow> json" where
  "json_vec v = JList (map JNum v)"

definition json_mat :: "real list list \<Rightarrow> json" where
  "json_mat m = JList (map json_vec m)"

section \<open>Module constants\<close>

definition HAND_LANDMARK_NAMES :: "string list" where
  "HAND_LANDMARK_NAMES =
    [''WRIST'',
     ''THUMB_CMC'', ''THUMB_MCP'', ''THUMB_IP'', ''THUMB_TIP'',
     ''INDEX_FINGER_MCP'', ''INDEX_FINGER_PIP'', ''INDEX_FINGER_DIP'', ''INDEX_FINGER_TIP'',
     ''MIDDLE_FINGER_MCP'', ''MIDDLE_FINGER_PIP'', ''MIDDLE_FINGER_DIP'', ''MIDDLE_FINGER_TIP'',
     ''RING_FINGER_MCP'', ''RING_FINGER_PIP'', ''RING_FINGER_DIP'', ''RING_FINGER_TIP'',
     ''PINKY_MCP'', ''PINKY_PIP'', ''PINKY_DIP'', ''PINKY_TIP'']"

definition BODY_KEYPOINT_NAMES :: "string list" where
  "BODY_KEYPOINT_NAMES =
    [''NOSE'',
     ''LEFT_EYE'', ''RIGHT_EYE'',
     ''LEFT_EAR'', ''RIGHT_EAR'',
     ''LEFT_SHOULDER'', ''RIGHT_SHOULDER'',
     ''LEFT_ELBOW'', ''RIGHT_ELBOW'',
     ''LEFT_WRIST'', ''RIGHT_WRIST'',
     ''LEFT_HIP'', ''RIGHT_HIP'',
     ''LEFT_KNEE'', ''RIGHT_KNEE'',
     ''LEFT_ANKLE'', ''RIGHT_ANKLE'']"

section \<open>Deriving the frame record (lines 200--233)\<close>

text \<open>\<open>str.capitalize\<close> on ASCII text: first character upper case, the rest lower case.\<close>

definition upper_char :: "char \<Rightarrow> char" where
  "upper_char c =
     (let n = (of_char c :: nat) in if 97 \<le> n \<and> n \<le> 122 then char_of (n - 32) else c)"

definition lower_char :: "char \<Rightarrow> char" where
  "lower_char c =
     (let n = (of_char c :: nat) in if 65 \<le> n \<and> n \<le> 90 then char_of (n + 32) else c)"

fun capitalize :: "string \<Rightarrow> string" where
  "capitalize [] = []"
| "capitalize (c # cs) = upper_char c # map lower_char cs"

text \<open>\<open>int(x)\<close> on a float truncates towards zero.\<close>

definition py_int :: "real \<Rightarrow> int" where
  "py_int x = (if 0 \<le> x then \<lfloor>x\<rfloor> else \<lceil>x\<rceil>)"

text \<open>
  One pass of the body of \<open>for hand in hands\<close>. \<open>hand.label.capitalize()\<close> and
  \<open>float(hand.lm_score)\<close> are evaluated unguarded; the three \<open>hasattr ... is not None\<close>
  tests guard \<open>landmarks\<close>, \<open>world_landmarks\<close> and \<open>xyz\<close>.
\<close>

definition hand_data :: "hand \<Rightarrow> exn + json" where
  "hand_data h =
     (case label h of
        Absent \<Rightarrow> Inl AttributeError
      | PyNone \<Rightarrow> Inl AttributeError
      | Val l \<Rightarrow>
         (case lm_score h of
            Absent \<Rightarrow> Inl AttributeError
          | PyNone \<Rightarrow> Inl TypeError
          | Val sc \<Rightarrow>
             Inr (JObj
               ([(''handedness'', JStr (capitalize l)),
                 (''confidence'', JNum sc),
                 (''landmarks_2d'', (case landmarks h of Val m \<Rightarrow> json_mat m | _ \<Rightarrow> JList [])),
                 (''landmarks_3d'',
                    (case world_landmarks h of Val m \<Rightarrow> json_mat m | _ \<Rightarrow> JList []))]
                @ (case xyz h of Val v \<Rightarrow> [(''palm_xyz'', json_vec v)] | _ \<Rightarrow> [])))))"

text \<open>The loop over the detections; the first exception leaves the loop and the function.\<close>

fun hands_data :: "hand list \<Rightarrow> exn + json list" where
  "hands_data [] = Inr []"
| "hands_data (h # hs) =
     (case hand_data h of
        Inl x \<Rightarrow> Inl x
      | Inr d \<Rightarrow> (case hands_data hs of Inl x \<Rightarrow> Inl x | Inr ds \<Rightarrow> Inr (d # ds)))"

text \<open>
  \<open>body = bag.get("body", None) if bag else None\<close>, then the record of the body when it
  has the attribute \<open>keypoints\<close>. \<open>body.keypoints.tolist()\<close> and
  \<open>body.scores.tolist()\<close> raise on a \<open>None\<close> value.
\<close>

definition bag_body :: "bag \<Rightarrow> body option" where
  "bag_body b =
     (case b of
        None \<Rightarrow> None
      | Some [] \<Rightarrow> None
      | Some kvs \<Rightarrow> (case map_of kvs ''body'' of None \<Rightarrow> None | Some v \<Rightarrow> v))"

definition body_data :: "bag \<Rightarrow> exn + json" where
  "body_data b =
     (case bag_body b of
        None \<Rightarrow> Inr JNull
      | Some bd \<Rightarrow>
         (case keypoints bd of
            Absent \<Rightarrow> Inr JNull
          | PyNone \<Rightarrow> Inl AttributeError
          | Val k \<Rightarrow>
             (case scores bd of
                Absent \<Rightarrow> Inr (JObj [(''keypoints_2d'', json_mat k), (''scores'', JList [])])
              | PyNone \<Rightarrow> Inl AttributeError
              | Val s \<Rightarrow> Inr (JObj [(''keypoints_2d'', json_mat k), (''scores'', json_vec s)]))))"

definition frame_pose :: "nat \<Rightarrow> int \<Rightarrow> json list \<Rightarrow> json \<Rightarrow> json" where
  "frame_pose frame_count timestamp_ms hs bd =
     JObj [(''_type'', JStr ''frame''),
           (''frame_idx'', JInt (int frame_count)),
           (''timestamp_ms'', JInt timestamp_ms),
           (''hands'', JList hs),
           (''body'', bd)]"

section \<open>Paths and artifact names\<close>

type_synonym path = "string list"

record config =
  output_dir :: path
  max_duration :: real
  max_disk_usage :: real

definition rgb_dir :: "config \<Rightarrow> path" where
  "rgb_dir cfg = output_dir cfg @ [''rgb_frames'']"

definition poses_file :: "config \<Rightarrow> path" where
  "poses_file cfg = output_dir cfg @ [''hand_poses.jsonl'']"

definition camera_info_file :: "config \<Rightarrow> path" where
  "camera_info_file cfg = output_dir cfg @ [''camera_info.json'']"

definition metadata_file :: "config \<Rightarrow> path" where
  "metadata_file cfg = output_dir cfg @ [''metadata.json'']"

definition digit_char :: "nat \<Rightarrow> char" where
  "digit_char d = char_of (48 + d)"

fun decimal :: "nat \<Rightarrow> string" where
  "decimal n = (if n < 10 then [digit_char n] else decimal (n div 10) @ [digit_char (n mod 10)])"

declare decimal.simps [simp del]

text \<open>The format \<open>f"frame_{frame_count:06d}"\<close>: padded with zeros to at least six digits.\<close>

definition frame_name :: "nat \<Rightarrow> string" where
  "frame_name n = ''frame_'' @ replicate (6 - length (decimal n)) (CHR ''0'') @ decimal n"

definition image_file :: "config \<Rightarrow> nat \<Rightarrow> path" where
  "image_file cfg n = rgb_dir cfg @ [frame_name n @ ''.jpg'']"

section \<open>Camera descriptor and the documents written once per session\<close>

record intrinsics =
  fx :: real
  fy :: real
  cx :: real
  cy :: real
  width :: int
  height :: int

definition default_intrinsics :: "int \<times> int \<Rightarrow> intrinsics" where
  "default_intrinsics res =
     \<lparr>fx = real_of_int (fst res) * 0.8,
      fy = real_of_int (fst res) * 0.8,
      cx = real_of_int (fst res) / 2,
      cy = real_of_int (snd res) / 2,
      width = fst res,
      height = snd res\<rparr>"

definition entry :: "real list list \<Rightarrow> nat \<Rightarrow> nat \<Rightarrow> real option" where
  "entry m i j = (if i < length m \<and> j < length (m ! i) then Some (m ! i ! j) else None)"

text \<open>
  The \<open>try\<close> of lines 136--149: any exception (a failed import, a failed calibration
  read, an index out of range) leaves the default descriptor in place.
\<close>

definition calibrated_intrinsics :: "real list list \<Rightarrow> intrinsics option" where
  "calibrated_intrinsics m =
     (case (entry m 0 0, entry m 1 1, entry m 0 2, entry m 1 2) of
        (Some a, Some b, Some c, Some d) \<Rightarrow>
          Some \<lparr>fx = a, fy = b, cx = c, cy = d, width = 1920, height = 1080\<rparr>
      | _ \<Rightarrow> None)"

definition intrinsics_json :: "intrinsics \<Rightarrow> json" where
  "intrinsics_json i =
     JObj [(''fx'', JNum (fx i)), (''fy'', JNum (fy i)), (''cx'', JNum (cx i)),
           (''cy'', JNum (cy i)), (''width'', JInt (width i)), (''height'', JInt (height i))]"

definition camera_info :: "intrinsics \<Rightarrow> json" where
  "camera_info i = JObj [(''intrinsics'', intrinsics_json i)]"

definition header :: "intrinsics \<Rightarrow> json" where
  "header i =
     JObj [(''_type'', JStr ''header''),
           (''intrinsics'', intrinsics_json i),
           (''landmark_names'', JList (map JStr HAND_LANDMARK_NAMES)),
           (''body_keypoint_names'', JList (map JStr BODY_KEYPOINT_NAMES))]"

text \<open>
  Lines 260--269. \<open>actual_duration\<close> is the float \<open>timestamps[-1] / 1000.0\<close>, or the
  integer \<open>0\<close> for an empty list; \<open>fps\<close> is the quotient only when the duration is
  positive, and the integer \<open>0\<close> otherwise.
\<close>

definition actual_duration :: "int list \<Rightarrow> real" where
  "actual_duration ts = (if ts \<noteq> [] then real_of_int (last ts) / 1000 else 0)"

definition session_metadata :: "string \<Rightarrow> nat \<Rightarrow> int list \<Rightarrow> json" where
  "session_metadata now fc ts =
     JObj [(''recording_date'', JStr now),
           (''duration_seconds'', (if ts \<noteq> [] then JNum (actual_duration ts) else JInt 0)),
           (''frame_count'', JInt (int fc)),
           (''fps'', (if 0 < actual_duration ts then JNum (real fc / actual_duration ts)
                      else JInt 0))]"

section \<open>Effects: the trace of calls and the file system it produces\<close>

datatype mode = ModeW | ModeA

text \<open>
  What one write puts into a file: a line \<open>json.dumps(obj) + "\n"\<close>, a document
  \<open>json.dump(obj, f, indent=2)\<close>, or an encoded image.
\<close>

datatype chunk = Line json | Dump json | Jpeg image

text \<open>
  \<open>Imwrite\<close> carries the boolean that \<open>cv2.imwrite\<close> returned (the module ignores
  it); the file exists afterwards only when it is true. \<open>Fsync\<close> stands for
  \<open>f.flush(); os.fsync(f.fileno())\<close>, the call that forces a file to the medium; it
  is part of the vocabulary of the store, and no function of the module makes it.
\<close>

datatype event =
    TrackerInit
  | NextFrame
  | TrackerExit
  | Sleep real
  | MkdirParents path
  | Mkdir path
  | Open path mode
  | Write path chunk
  | Close path
  | Imwrite path image bool
  | Fsync path

record fs =
  dirs :: "path set"
  files :: "path \<rightharpoonup> chunk list"

definition contents :: "fs \<Rightarrow> path \<Rightarrow> chunk list" where
  "contents f p = (case files f p of None \<Rightarrow> [] | Some cs \<Rightarrow> cs)"

fun apply_event :: "event \<Rightarrow> fs \<Rightarrow> fs" where
  "apply_event (MkdirParents p) f =
     f\<lparr>dirs := dirs f \<union> set (map (\<lambda>k. take k p) [1..<Suc (length p)])\<rparr>"
| "apply_event (Mkdir p) f = f\<lparr>dirs := insert p (dirs f)\<rparr>"
| "apply_event (Open p ModeW) f = f\<lparr>files := (files f)(p \<mapsto> [])\<rparr>"
| "apply_event (Open p ModeA) f = f\<lparr>files := (files f)(p \<mapsto> contents f p)\<rparr>"
| "apply_event (Write p c) f = f\<lparr>files := (files f)(p \<mapsto> contents f p @ [c])\<rparr>"
| "apply_event (Imwrite p img ok) f =
     (if ok then f\<lparr>files := (files f)(p \<mapsto> [Jpeg img])\<rparr> else f)"
| "apply_event _ f = f"

definition replay :: "fs \<Rightarrow> event list \<Rightarrow> fs" where
  "replay f evs = fold apply_event evs f"

text \<open>
  \<open>replay\<close> gives the store as the running system sees it: a write is visible as
  soon as it is made. What survives a power cut is less: a file system keeps written data
  in volatile memory and writes it back when it chooses, and only \<open>Fsync\<close> guarantees
  that a file's content is on the medium. \<open>on_medium\<close> follows a trace with the store
  and, beside it, the content that is guaranteed to be on the medium.
\<close>

fun store_step :: "event \<Rightarrow> fs \<times> (path \<rightharpoonup> chunk list) \<Rightarrow> fs \<times> (path \<rightharpoonup> chunk list)" where
  "store_step (Fsync p) (f, d) = (f, d(p := files f p))"
| "store_step e (f, d) = (apply_event e f, d)"

definition on_medium :: "fs \<Rightarrow> (path \<rightharpoonup> chunk list) \<Rightarrow> event list \<Rightarrow> (path \<rightharpoonup> chunk list)" where
  "on_medium f d evs = snd (fold store_step evs (f, d))"

text \<open>\<open>with open(p, "w") as f: ...\<close> around a single write.\<close>

definition write_doc :: "path \<Rightarrow> chunk \<Rightarrow> event list" where
  "write_doc p c = [Open p ModeW, Write p c, Close p]"

definition append_line :: "path \<Rightarrow> chunk \<Rightarrow> event list" where
  "append_line p c = [Open p ModeA, Write p c, Close p]"

section \<open>The environment script\<close>

text \<open>
  One entry per pass through the frame loop. \<open>signal_seen\<close> says that the signal handler
  ran during the pass: its only effect is \<open>running = False\<close>, and \<open>running\<close> is read
  only by the loop condition and the \<open>return\<close> statements. A file operation that fails
  is taken to fail when the file is opened, before any effect.
\<close>

record iter_env =
  signal_seen :: bool
  t_loop :: real
  t_check :: real
  disk_usage :: "exn + (nat \<times> nat \<times> nat)"
  t_status :: real
  next_frame :: "exn + pulled"
  imwrite :: "exn + bool"
  poses_append :: "exn option"

record session_env =
  signal_setup :: bool
  tracker_init :: "exn option"
  first_frame :: "exn + pulled"
  tracker_exit :: "exn option"
  mkdir_out :: "exn option"
  mkdir_rgb :: "exn option"
  resolution :: "int \<times> int"
  calibration :: "exn + real list list"
  write_camera :: "exn option"
  write_header :: "exn option"
  t_start :: real
  iters :: "iter_env list"
  signal_close :: bool
  write_meta :: "exn option"
  now_iso :: string

section \<open>The resource monitor (lines 57--61)\<close>

text \<open>
  \<open>(used / total) * 100\<close> is computed in doubles: the quotient of the two integers is
  rounded once, and its product with 100 is rounded again. \<open>round_double\<close> is the
  rounding of IEEE 754 binary64, to the nearest value with a significand of 53 bits, ties
  to the even significand. A positive number is brought into the range from \<open>2^52\<close> up
  to \<open>2^53\<close> by halving or doubling, rounded to an integer there, and scaled back. The
  exponent range is taken as unbounded: byte counts of a file system are far inside it.
\<close>

function scale_down :: "real \<Rightarrow> real \<Rightarrow> real \<times> real" where
  "scale_down x u = (if 2 ^ 53 \<le> x then scale_down (x / 2) (2 * u) else (x, u))"
  by pat_completeness auto
termination
proof (relation "measure (\<lambda>(x, u). nat \<lfloor>x\<rfloor>)")
  show "wf (measure (\<lambda>(x, u). nat \<lfloor>x\<rfloor>))" by simp
next
  fix x u :: real
  assume a: "2 ^ 53 \<le> x"
  have "(2::real) \<le> 2 ^ 53" by simp
  from this a have two: "2 \<le> x" by (rule order_trans)
  then have "x / 2 + 1 \<le> x" by simp
  then have "\<lfloor>x / 2 + 1\<rfloor> \<le> \<lfloor>x\<rfloor>" by (rule floor_mono)
  then have "\<lfloor>x / 2\<rfloor> + 1 \<le> \<lfloor>x\<rfloor>" by simp
  moreover have "0 \<le> \<lfloor>x / 2\<rfloor>" using two by simp
  ultimately have "nat \<lfloor>x / 2\<rfloor> < nat \<lfloor>x\<rfloor>" by linarith
  then show "((x / 2, 2 * u), (x, u)) \<in> measure (\<lambda>(x, u). nat \<lfloor>x\<rfloor>)"
    by (simp only: in_measure prod.case)
qed

function scale_up :: "real \<Rightarrow> real \<Rightarrow> real \<times> real" where
  "scale_up x u = (if 0 < x \<and> x < 2 ^ 52 then scale_up (2 * x) (u / 2) else (x, u))"
  by pat_completeness auto
termination
proof (relation "measure (\<lambda>(x, u). nat \<lceil>2 ^ 52 / x\<rceil>)")
  show "wf (measure (\<lambda>(x, u). nat \<lceil>2 ^ 52 / x\<rceil>))" by simp
next
  fix x u :: real
  assume a: "0 < x \<and> x < 2 ^ 52"
  define y where "y = 2 ^ 52 / x"
  from a have y: "1 < y" by (simp add: y_def)
  have "y / 2 \<le> of_int \<lceil>y\<rceil> / 2" using le_of_int_ceiling [of y] by simp
  also have "\<dots> \<le> of_int (\<lceil>y\<rceil> - 1)"
  proof -
    from y have "2 \<le> \<lceil>y\<rceil>" by (simp add: le_ceiling_iff)
    then have "(2::real) \<le> of_int \<lceil>y\<rceil>" by (metis of_int_le_iff of_int_numeral)
    then show ?thesis by simp
  qed
  finally have "\<lceil>y / 2\<rceil> \<le> \<lceil>y\<rceil> - 1" by (rule ceiling_le)
  moreover have "0 < \<lceil>y\<rceil>" using y by (simp add: less_ceiling_iff)
  ultimately have "nat \<lceil>y / 2\<rceil> < nat \<lceil>y\<rceil>" by linarith
  moreover have "(2::real) ^ 52 / (2 * x) = y / 2" by (simp add: y_def)
  ultimately have "nat \<lceil>(2::real) ^ 52 / (2 * x)\<rceil> < nat \<lceil>(2::real) ^ 52 / x\<rceil>"
    by (simp only: y_def)
  then show "((2 * x, u / 2), (x, u)) \<in> measure (\<lambda>(x, u). nat \<lceil>2 ^ 52 / x\<rceil>)"
    by (simp only: in_measure prod.case)
qed

declare scale_down.simps [simp del] scale_up.simps [simp del]

definition round_half_even :: "real \<Rightarrow> int" where
  "round_half_even m =
     (let f = \<lfloor>m\<rfloor>; d = m - of_int f
      in if d < 1 / 2 then f else if 1 / 2 < d then f + 1 else if even f then f else f + 1)"

definition round_double :: "real \<Rightarrow> real" where
  "round_double x =
     (if x = 0 then 0
      else (case scale_down \<bar>x\<bar> 1 of
              (y, u) \<Rightarrow> (case scale_up y u of
                 (m, v) \<Rightarrow> sgn x * of_int (round_half_even m) * v)))"

definition get_disk_usage_percent :: "exn + (nat \<times> nat \<times> nat) \<Rightarrow> exn + real" where
  "get_disk_usage_percent du =
     (case du of
        Inl x \<Rightarrow> Inl x
      | Inr (total_b, used_b, free_b) \<Rightarrow>
          if total_b = 0 then Inl ZeroDivisionError
          else Inr (round_double (round_double (real used_b / real total_b) * 100)))"

section \<open>The frame loop (lines 171--251)\<close>

record loop_state =
  running :: bool
  frame_count :: nat
  timestamps :: "int list"
  last_status_time :: real
  trace :: "event list"

datatype step = Continue loop_state | Break loop_state | Throw exn loop_state

definition disk_check :: "config \<Rightarrow> iter_env \<Rightarrow> loop_state \<Rightarrow> step" where
  "disk_check cfg e s =
     (if 30 < t_check e - last_status_time s then
        (case get_disk_usage_percent (disk_usage e) of
           Inl x \<Rightarrow> Throw x s
         | Inr usage \<Rightarrow>
             if max_disk_usage cfg < usage then Break (s\<lparr>running := False\<rparr>)
             else Continue (s\<lparr>last_status_time := t_status e\<rparr>))
      else Continue s)"

definition persist_frame ::
  "config \<Rightarrow> iter_env \<Rightarrow> image \<Rightarrow> int \<Rightarrow> json list \<Rightarrow> json \<Rightarrow> loop_state \<Rightarrow> step" where
  "persist_frame cfg e frame timestamp_ms hs_json b_json s =
     (case imwrite e of
        Inl x \<Rightarrow> Throw x s
      | Inr ok \<Rightarrow>
          (let s1 = s\<lparr>trace := trace s @ [Imwrite (image_file cfg (frame_count s)) frame ok]\<rparr> in
           case poses_append e of
             Some x \<Rightarrow> Throw x s1
           | None \<Rightarrow>
               Continue (s1\<lparr>trace := trace s1 @
                              append_line (poses_file cfg)
                                (Line (frame_pose (frame_count s) timestamp_ms hs_json b_json)),
                            timestamps := timestamps s @ [timestamp_ms],
                            frame_count := Suc (frame_count s)\<rparr>)))"

definition frame_step :: "config \<Rightarrow> real \<Rightarrow> iter_env \<Rightarrow> loop_state \<Rightarrow> step" where
  "frame_step cfg start_time e s =
     (let elapsed = t_loop e - start_time in
      if max_duration cfg < elapsed then Break s
      else
        (case disk_check cfg e s of
           Throw x s' \<Rightarrow> Throw x s'
         | Break s' \<Rightarrow> Break s'
         | Continue s1 \<Rightarrow>
             (let s2 = s1\<lparr>trace := trace s1 @ [NextFrame]\<rparr> in
              case next_frame e of
                Inl x \<Rightarrow> Break s2
              | Inr (None, hands, b) \<Rightarrow> Break s2
              | Inr (Some frame, hands, b) \<Rightarrow>
                  (case hands_data hands of
                     Inl x \<Rightarrow> Throw x s2
                   | Inr hs_json \<Rightarrow>
                       (case body_data b of
                          Inl x \<Rightarrow> Throw x s2
                        | Inr b_json \<Rightarrow>
                            persist_frame cfg e frame (py_int (elapsed * 1000)) hs_json b_json s2)))))"

definition signalled :: "bool \<Rightarrow> loop_state \<Rightarrow> loop_state" where
  "signalled sg s = s\<lparr>running := running s \<and> \<not> sg\<rparr>"

text \<open>
  How the loop ends: it is left (by its condition or by \<open>break\<close>), an exception leaves the
  function, or the script ends while the loop would go on.
\<close>

datatype loop_exit = Done loop_state | Threw exn loop_state | Starved loop_state

fun frame_loop :: "config \<Rightarrow> real \<Rightarrow> iter_env list \<Rightarrow> loop_state \<Rightarrow> loop_exit" where
  "frame_loop cfg start_time [] s = (if running s then Starved s else Done s)"
| "frame_loop cfg start_time (e # es) s =
     (if \<not> running s then Done s
      else
        (case frame_step cfg start_time e s of
           Continue s' \<Rightarrow> frame_loop cfg start_time es (signalled (signal_seen e) s')
         | Break s' \<Rightarrow> Done (signalled (signal_seen e) s')
         | Throw x s' \<Rightarrow> Threw x (signalled (signal_seen e) s')))"

section \<open>The session controller \<open>record_session\<close>\<close>

text \<open>
  What the caller sees: the returned boolean, or an exception. \<open>Unfinished\<close> stands for
  a loop that is still running when the script ends. The outcome also carries the trace of
  calls made, the value of the global \<open>running\<close> when control left the function, and
  the final \<open>frame_count\<close> and \<open>timestamps\<close>.
\<close>

datatype status = Returned bool | Raised exn | Unfinished

record outcome =
  status :: status
  events :: "event list"
  run_flag :: bool
  n_frames :: nat
  stamps :: "int list"

text \<open>The three early exits of lines 90--117: backoff, then \<open>return running\<close>.\<close>

definition backoff :: "bool \<Rightarrow> session_env \<Rightarrow> event list \<Rightarrow> outcome" where
  "backoff r env evs =
     \<lparr>status = Returned (r \<and> \<not> signal_setup env),
      events = evs @ [Sleep 5],
      run_flag = (r \<and> \<not> signal_setup env),
      n_frames = 0,
      stamps = []\<rparr>"

definition resolve_intrinsics :: "session_env \<Rightarrow> intrinsics" where
  "resolve_intrinsics env =
     (case calibration env of
        Inl x \<Rightarrow> default_intrinsics (resolution env)
      | Inr m \<Rightarrow>
          (case calibrated_intrinsics m of
             None \<Rightarrow> default_intrinsics (resolution env)
           | Some i \<Rightarrow> i))"

text \<open>Lines 119--164; the result is the exception that left the function, if any.\<close>

definition session_setup :: "config \<Rightarrow> session_env \<Rightarrow> exn option \<times> event list" where
  "session_setup cfg env =
     (case mkdir_out env of
        Some x \<Rightarrow> (Some x, [])
      | None \<Rightarrow>
          (case mkdir_rgb env of
             Some x \<Rightarrow> (Some x, [MkdirParents (output_dir cfg)])
           | None \<Rightarrow>
               (let ev1 = [MkdirParents (output_dir cfg), Mkdir (rgb_dir cfg)];
                    intr = resolve_intrinsics env
                in case write_camera env of
                     Some x \<Rightarrow> (Some x, ev1)
                   | None \<Rightarrow>
                       (let ev2 = ev1 @ write_doc (camera_info_file cfg) (Dump (camera_info intr))
                        in case write_header env of
                             Some x \<Rightarrow> (Some x, ev2)
                           | None \<Rightarrow>
                               (None, ev2 @ write_doc (poses_file cfg) (Line (header intr)))))))"

definition loop_init :: "config \<Rightarrow> session_env \<Rightarrow> bool \<Rightarrow> event list \<Rightarrow> loop_state" where
  "loop_init cfg env r evs =
     \<lparr>running = (r \<and> \<not> signal_setup env),
      frame_count = 0,
      timestamps = [],
      last_status_time = t_start env,
      trace = [TrackerInit, NextFrame] @ evs\<rparr>"

text \<open>
  Lines 253--275. The result of \<open>tracker.exit()\<close> is discarded by the bare \<open>except\<close>, so
  \<open>tracker_exit env\<close> is never looked at.
\<close>

definition close_session :: "config \<Rightarrow> session_env \<Rightarrow> loop_state \<Rightarrow> outcome" where
  "close_session cfg env s =
     (let evs = trace s @ [TrackerExit];
          r = (running s \<and> \<not> signal_close env)
      in if 0 < frame_count s then
           (case write_meta env of
              Some x \<Rightarrow>
                \<lparr>status = Raised x, events = evs, run_flag = r,
                 n_frames = frame_count s, stamps = timestamps s\<rparr>
            | None \<Rightarrow>
                \<lparr>status = Returned r,
                 events = evs @ write_doc (metadata_file cfg)
                   (Dump (session_metadata (now_iso env) (frame_count s) (timestamps s))),
                 run_flag = r, n_frames = frame_count s, stamps = timestamps s\<rparr>)
         else
           \<lparr>status = Returned r, events = evs, run_flag = r,
            n_frames = frame_count s, stamps = timestamps s\<rparr>)"

definition record_session :: "config \<Rightarrow> session_env \<Rightarrow> bool \<Rightarrow> outcome" where
  "record_session cfg env r =
     (case tracker_init env of
        Some x \<Rightarrow> backoff r env [TrackerInit]
      | None \<Rightarrow>
          (case first_frame env of
             Inl x \<Rightarrow> backoff r env [TrackerInit, NextFrame, TrackerExit]
           | Inr (None, hands, b) \<Rightarrow> backoff r env [TrackerInit, NextFrame, TrackerExit]
           | Inr (Some frame, hands, b) \<Rightarrow>
               (case session_setup cfg env of
                  (Some x, evs) \<Rightarrow>
                    \<lparr>status = Raised x, events = [TrackerInit, NextFrame] @ evs,
                     run_flag = (r \<and> \<not> signal_setup env), n_frames = 0, stamps = []\<rparr>
                | (None, evs) \<Rightarrow>
                    (case frame_loop cfg (t_start env) (iters env) (loop_init cfg env r evs) of
                       Done s \<Rightarrow> close_session cfg env s
                     | Threw x s \<Rightarrow>
                         \<lparr>status = Raised x, events = trace s, run_flag = running s,
                          n_frames = frame_count s, stamps = timestamps s\<rparr>
                     | Starved s \<Rightarrow>
                         \<lparr>status = Unfinished, events = trace s, run_flag = running s,
                          n_frames = frame_count s, stamps = timestamps s\<rparr>))))"

section \<open>The program controller (lines 307--322)\<close>

text \<open>
  One script entry per session: the time stamp that names the directory, the session's
  environment, and whether a signal arrives during the pause of two seconds.
\<close>

datatype program_end =
    Stopped nat "event list"
  | Crashed exn nat "event list"
  | Ongoing nat "event list"

fun main_loop ::
  "path \<Rightarrow> real \<Rightarrow> real \<Rightarrow> (string \<times> session_env \<times> bool) list \<Rightarrow> bool \<Rightarrow> nat \<Rightarrow> event list
     \<Rightarrow> program_end" where
  "main_loop recordings_dir md mu [] r n evs = (if r then Ongoing n evs else Stopped n evs)"
| "main_loop recordings_dir md mu ((stamp, env, sg) # rest) r n evs =
     (if \<not> r then Stopped n evs
      else
        (let out = record_session
                     \<lparr>output_dir = recordings_dir @ [''session_'' @ stamp],
                      max_duration = md, max_disk_usage = mu\<rparr> env r
         in case status out of
              Raised x \<Rightarrow> Crashed x (Suc n) (evs @ events out)
            | Unfinished \<Rightarrow> Ongoing (Suc n) (evs @ events out)
            | Returned should_continue \<Rightarrow>
                if \<not> should_continue then Stopped (Suc n) (evs @ events out)
                else main_loop recordings_dir md mu rest (run_flag out \<and> \<not> sg) (Suc n)
                       (evs @ events out @ [Sleep 2])))"

section \<open>Predicates used to state the properties\<close>

text \<open>A detection that carries a label and a landmark score, the two attributes read unguarded.\<close>

definition labelled :: "hand \<Rightarrow> bool" where
  "labelled h =
     ((case label h of Val l \<Rightarrow> True | _ \<Rightarrow> False) \<and>
      (case lm_score h of Val sc \<Rightarrow> True | _ \<Rightarrow> False))"

text \<open>Whether an event is a file operation on the path \<open>p\<close>.\<close>

fun on_path :: "path \<Rightarrow> event \<Rightarrow> bool" where
  "on_path p (Open q m) = (q = p)"
| "on_path p (Write q c) = (q = p)"
| "on_path p (Close q) = (q = p)"
| "on_path p (Imwrite q img ok) = (q = p)"
| "on_path p _ = False"

text \<open>The chunks written to \<open>p\<close>, in the order of the trace.\<close>

fun written :: "path \<Rightarrow> event list \<Rightarrow> chunk list" where
  "written p [] = []"
| "written p (Write q c # evs) = (if q = p then c # written p evs else written p evs)"
| "written p (e # evs) = written p evs"

text \<open>The calls of \<open>cv2.imwrite\<close>: target, image, returned flag.\<close>

fun image_calls :: "event list \<Rightarrow> (path \<times> image \<times> bool) list" where
  "image_calls [] = []"
| "image_calls (Imwrite q img ok # evs) = (q, img, ok) # image_calls evs"
| "image_calls (e # evs) = image_calls evs"

text \<open>Reading a file back line by line: every \<open>Line\<close> chunk is one JSON document.\<close>

fun lines_of :: "chunk list \<Rightarrow> json list" where
  "lines_of [] = []"
| "lines_of (Line j # cs) = j # lines_of cs"
| "lines_of (c # cs) = lines_of cs"

text \<open>The lines after the first one that the session wrote to the pose stream.\<close>

definition frame_records :: "config \<Rightarrow> event list \<Rightarrow> json list" where
  "frame_records cfg evs = lines_of (tl (written (poses_file cfg) evs))"

text \<open>The state in which the loop ended, however it ended.\<close>

fun end_state :: "loop_exit \<Rightarrow> loop_state" where
  "end_state (Done s) = s"
| "end_state (Threw x s) = s"
| "end_state (Starved s) = s"

text \<open>The calls of one complete pass of the loop that persists frame \<open>i\<close>.\<close>

definition frame_events :: "config \<Rightarrow> nat \<Rightarrow> image \<Rightarrow> bool \<Rightarrow> json \<Rightarrow> event list" where
  "frame_events cfg i img ok j =
     [NextFrame, Imwrite (image_file cfg i) img ok] @ append_line (poses_file cfg) (Line j)"

text \<open>One row per persisted frame (image, flag returned by the encoder, record), numbered
  from 0 in the order of the list.\<close>

type_synonym row = "image \<times> bool \<times> json"

definition blocks :: "config \<Rightarrow> row list \<Rightarrow> event list" where
  "blocks cfg rows =
     concat (map (\<lambda>(i, img, ok, j). frame_events cfg i img ok j) (enumerate 0 rows))"

text \<open>
  The trace of a loop state: a prefix, one block of calls per persisted frame, and the calls
  of a pass that did not complete. Record \<open>i\<close> carries index \<open>i\<close> and the \<open>i\<close>-th time stamp.
\<close>

definition shaped :: "config \<Rightarrow> event list \<Rightarrow> loop_state \<Rightarrow> row list \<Rightarrow> event list \<Rightarrow> bool" where
  "shaped cfg pre s rows tail \<longleftrightarrow>
     trace s = pre @ blocks cfg rows @ tail
   \<and> length rows = frame_count s
   \<and> length (timestamps s) = frame_count s
   \<and> (\<forall>i < length rows. \<exists>hj bj. snd (snd (rows ! i)) = frame_pose i (timestamps s ! i) hj bj)"

text \<open>What an incomplete last pass may have added: nothing, the pull, or the pull and the
  image (the latter only when the pass raised).\<close>

definition tail_ok :: "config \<Rightarrow> loop_exit \<Rightarrow> event list \<Rightarrow> bool" where
  "tail_ok cfg ex tail \<longleftrightarrow>
     tail = [] \<or> tail = [NextFrame]
   \<or> ((\<exists>x s. ex = Threw x s) \<and>
       (\<exists>img ok. tail = [NextFrame, Imwrite (image_file cfg (frame_count (end_state ex))) img ok]))"

text \<open>The events that replace the content of \<open>p\<close> instead of extending it.\<close>

fun truncates :: "path \<Rightarrow> event \<Rightarrow> bool" where
  "truncates p (Open q m) = (q = p \<and> m = ModeW)"
| "truncates p (Imwrite q img ok) = (q = p \<and> ok)"
| "truncates p _ = False"

text \<open>The session does not get past \<open>ACQUIRING\<close> and \<open>VERIFYING\<close> (lines 79--117).\<close>

definition gate_fails :: "session_env \<Rightarrow> bool" where
  "gate_fails env =
     (case tracker_init env of
        Some x \<Rightarrow> True
      | None \<Rightarrow>
          (case first_frame env of
             Inl x \<Rightarrow> True
           | Inr (None, hs, b) \<Rightarrow> True
           | Inr (Some frame, hs, b) \<Rightarrow> False))"

text \<open>The events that change the store: directories and files.\<close>

fun touches_store :: "event \<Rightarrow> bool" where
  "touches_store TrackerInit = False"
| "touches_store NextFrame = False"
| "touches_store TrackerExit = False"
| "touches_store (Sleep d) = False"
| "touches_store _ = True"

text \<open>The store operations of a complete \<open>ACTIVE\<close> set-up (lines 119--164).\<close>

definition setup_events :: "config \<Rightarrow> intrinsics \<Rightarrow> event list" where
  "setup_events cfg intr =
     [MkdirParents (output_dir cfg), Mkdir (rgb_dir cfg)]
       @ write_doc (camera_info_file cfg) (Dump (camera_info intr))
       @ write_doc (poses_file cfg) (Line (header intr))"

text \<open>Re-reading a JSONL file: \<open>None\<close> when it does not exist.\<close>

definition read_jsonl :: "fs \<Rightarrow> path \<Rightarrow> json list option" where
  "read_jsonl f p = map_option lines_of (files f p)"

text \<open>Reading a string of decimal digits back as a number.\<close>

definition digits_value :: "string \<Rightarrow> nat" where
  "digits_value ds = foldl (\<lambda>a c. 10 * a + (of_char c - 48)) 0 ds"

text \<open>
  A pass of the loop in which nothing but the pose source can fail: the disk sample, the
  image write and the append succeed, and what the pull delivers can be turned into a
  record.
\<close>

definition pass_contained :: "iter_env \<Rightarrow> bool" where
  "pass_contained e =
     ((case get_disk_usage_percent (disk_usage e) of Inl x \<Rightarrow> False | Inr u \<Rightarrow> True)
    \<and> (case imwrite e of Inl x \<Rightarrow> False | Inr ok \<Rightarrow> True)
    \<and> poses_append e = None
    \<and> (case next_frame e of
          Inr (Some frame, hs, b) \<Rightarrow>
            list_all labelled hs \<and> (case body_data b of Inl x \<Rightarrow> False | Inr j \<Rightarrow> True)
        | _ \<Rightarrow> True))"

text \<open>A script in which no store operation fails and every pass is as above.\<close>

definition only_source_fails :: "session_env \<Rightarrow> bool" where
  "only_source_fails env =
     (mkdir_out env = None \<and> mkdir_rgb env = None \<and> write_camera env = None
    \<and> write_header env = None \<and> write_meta env = None
    \<and> list_all pass_contained (iters env))"

text \<open>The last pull of the script delivers no frame: the source stops eventually.\<close>

definition source_stops :: "session_env \<Rightarrow> bool" where
  "source_stops env =
     (case iters env of
        [] \<Rightarrow> False
      | e # es \<Rightarrow>
          (case next_frame (last (iters env)) of
             Inr (Some frame, hs, b) \<Rightarrow> False
           | _ \<Rightarrow> True))"

section \<open>Sample scripts\<close>

text \<open>Concrete configurations and scripts on which the theorems below are instantiated.\<close>

definition sample_config :: config where
  "sample_config =
     \<lparr>output_dir = [''recordings'', ''session_20240101_120000''],
      max_duration = 3600, max_disk_usage = 90\<rparr>"

definition sample_pass :: "real \<Rightarrow> exn + pulled \<Rightarrow> iter_env" where
  "sample_pass t p =
     \<lparr>signal_seen = False, t_loop = t, t_check = t, disk_usage = Inr (100, 50, 50),
      t_status = t, next_frame = p, imwrite = Inr True, poses_append = None\<rparr>"

definition sample_env :: "exn + pulled \<Rightarrow> iter_env list \<Rightarrow> session_env" where
  "sample_env first passes =
     \<lparr>signal_setup = False, tracker_init = None, first_frame = first,
      tracker_exit = None, mkdir_out = None, mkdir_rgb = None, resolution = (1920, 1080),
      calibration = Inl SourceError, write_camera = None, write_header = None,
      t_start = 100, iters = passes, signal_close = False, write_meta = None,
      now_iso = ''2024-01-01T12:00:00''\<rparr>"

definition sample_hand :: hand where
  "sample_hand = \<lparr>label = Val ''right'', lm_score = Val 0.9, landmarks = Absent,
              world_landmarks = PyNone, xyz = Absent\<rparr>"

definition sample_session :: session_env where
  "sample_session = sample_env (Inr (Some [7], [], None))
     [sample_pass 101 (Inr (Some [1], [], None)),
      sample_pass 102 (Inr (Some [2], [sample_hand], None)),
      sample_pass 103 (Inr (None, [], None))]"

text \<open>A script whose wall clock is set back between two passes of the loop.\<close>

definition sample_backstep :: session_env where
  "sample_backstep = sample_env (Inr (Some [7], [], None))
     [sample_pass 100.5 (Inr (Some [1], [], None)),
      sample_pass 100.2 (Inr (Some [2], [], None)),
      sample_pass 100.3 (Inr (None, [], None))]"

text \<open>A session whose only frame is pulled in the instant the loop starts, and a session
  whose source is exhausted at once.\<close>

definition sample_instant :: session_env where
  "sample_instant = sample_env (Inr (Some [7], [], None))
     [sample_pass 100 (Inr (Some [1], [], None)),
      sample_pass 100 (Inr (None, [], None))]"

definition sample_empty :: session_env where
  "sample_empty = sample_env (Inr (Some [7], [], None))
     [sample_pass 101 (Inr (None, [], None))]"

text \<open>Scripts with a store that refuses the directory, with a store that refuses an append,
  and with a source that fails in the loop and on release.\<close>

definition sample_readonly :: session_env where
  "sample_readonly = sample_session\<lparr>mkdir_out := Some OSError\<rparr>"

definition sample_disk_full :: session_env where
  "sample_disk_full = sample_env (Inr (Some [7], [], None))
     [sample_pass 101 (Inr (Some [1], [], None)),
      (sample_pass 102 (Inr (Some [2], [], None)))\<lparr>poses_append := Some OSError\<rparr>]"

definition sample_source_fault :: session_env where
  "sample_source_fault = (sample_env (Inr (Some [7], [], None))
     [sample_pass 101 (Inr (Some [1], [], None)),
      sample_pass 102 (Inl SourceError)])\<lparr>tracker_exit := Some SourceError\<rparr>"

text \<open>
  A session in which, after two frames, a pass 31 seconds after the start samples the disk
  at 95 percent; and the loop state after those two frames.
\<close>

definition sample_disk_pass :: iter_env where
  "sample_disk_pass = (sample_pass 131 (Inr (Some [3], [], None)))\<lparr>disk_usage := Inr (100, 95, 5)\<rparr>"

definition sample_exhausted :: session_env where
  "sample_exhausted = sample_env (Inr (Some [7], [], None))
     ([sample_pass 101 (Inr (Some [1], [], None)), sample_pass 102 (Inr (Some [2], [], None))]
        @ sample_disk_pass # [sample_pass 132 (Inr (Some [4], [], None))])"

definition sample_two_frames :: loop_state where
  "sample_two_frames =
     \<lparr>running = True, frame_count = 2, timestamps = [1000, 2000], last_status_time = 100,
      trace = [TrackerInit, NextFrame]
        @ setup_events sample_config (default_intrinsics (1920, 1080))
        @ frame_events sample_config 0 [1] True (frame_pose 0 1000 [] JNull)
        @ frame_events sample_config 1 [2] True (frame_pose 1 2000 [] JNull)\<rparr>"

text \<open>
  A store that refuses the append of the first pass, after the image of that pass was
  written; and the session of the disk sample above, on a store that refuses
  \<open>metadata.json\<close>.
\<close>

definition sample_first_append_fails :: session_env where
  "sample_first_append_fails = sample_env (Inr (Some [7], [], None))
     [(sample_pass 101 (Inr (Some [1], [], None)))\<lparr>poses_append := Some OSError\<rparr>]"

definition sample_meta_refused :: session_env where
  "sample_meta_refused = sample_exhausted\<lparr>write_meta := Some OSError\<rparr>"

section \<open>Evaluating the rounding of doubles\<close>

lemma scale_down_small: "x < 2 ^ 53 \<Longrightarrow> scale_down x u = (x, u)"
  by (simp add: scale_down.simps [of x u])

lemma scale_up_steps:
  "0 < x \<Longrightarrow> 2 ^ 52 \<le> x * 2 ^ n \<Longrightarrow> x * 2 ^ n < 2 ^ 53 \<Longrightarrow>
     scale_up x u = (x * 2 ^ n, u / 2 ^ n)"
proof (induction n arbitrary: x u)
  case 0
  then show ?case by (simp add: scale_up.simps [of x u])
next
  case (Suc n)
  have "x * 2 \<le> x * 2 ^ Suc n"
    using Suc.prems(1) by (simp add: mult_le_cancel_left_pos numeral_2_eq_2 [symmetric]
        self_le_power)
  with Suc.prems(3) have small: "x < 2 ^ 52" by simp
  have "scale_up (2 * x) (u / 2) = (2 * x * 2 ^ n, u / 2 / 2 ^ n)"
    using Suc.prems by (intro Suc.IH) (simp_all add: mult.assoc mult.left_commute)
  with small Suc.prems(1) show ?case
    by (simp add: scale_up.simps [of x u] mult.assoc mult.left_commute)
qed

lemma round_double_scaled:
  assumes "0 < x" "2 ^ 52 \<le> x * 2 ^ n" "x * 2 ^ n < 2 ^ 53"
  shows "round_double x = of_int (round_half_even (x * 2 ^ n)) / 2 ^ n"
proof -
  have "x \<le> x * 2 ^ n" using assms(1) by (simp add: mult_le_cancel_left1)
  with assms(3) have "x < 2 ^ 53" by simp
  with assms(1) have "scale_down \<bar>x\<bar> 1 = (x, 1)" by (simp add: scale_down_small)
  moreover have "scale_up x 1 = (x * 2 ^ n, 1 / 2 ^ n)"
    using assms by (rule scale_up_steps)
  ultimately show ?thesis using assms(1) by (simp add: round_double_def)
qed

lemma rd_95: "round_double (round_double (95 / 100) * 100) = 95"
proof -
  have a: "round_double (95 / 100) = 8556839292003942 / 2 ^ 53"
    by (subst round_double_scaled [where n = 53]) (simp_all add: round_half_even_def)
  have b: "round_double (8556839292003942 / 2 ^ 53 * 100) = 95"
    by (subst round_double_scaled [where n = 46]) (simp_all add: round_half_even_def)
  show ?thesis unfolding a by (rule b)
qed

lemma rd_55: "round_double (round_double (55 / 100) * 100) = 55 + 1 / 2 ^ 47"
proof -
  have a: "round_double (55 / 100) = 2476979795053773 / 2 ^ 52"
    by (subst round_double_scaled [where n = 53]) (simp_all add: round_half_even_def)
  have b: "round_double (2476979795053773 / 2 ^ 52 * 100) = 55 + 1 / 2 ^ 47"
    by (subst round_double_scaled [where n = 47]) (simp_all add: round_half_even_def)
  show ?thesis unfolding a by (rule b)
qed

lemma disk_usage_defined:
  "total_b \<noteq> 0 \<Longrightarrow> \<exists>u. get_disk_usage_percent (Inr (total_b, used_b, free_b)) = Inr u"
  by (simp add: get_disk_usage_percent_def)

lemma disk_usage_95: "get_disk_usage_percent (Inr (100, 95, 5)) = Inr 95"
  using rd_95 by (simp add: get_disk_usage_percent_def)

text \<open>
  55 of 100 bytes used: the quotient is rounded up to the double next to 0.55, and the
  product with 100 lands one unit in the last place above 55, as in Python.
\<close>

lemma disk_usage_55: "get_disk_usage_percent (Inr (100, 55, 45)) = Inr (55 + 1 / 2 ^ 47)"
  using rd_55 by (simp add: get_disk_usage_percent_def)

section \<open>Lemmas on the frame loop and on traces\<close>

lemma frame_step_Continue:
  assumes "frame_step cfg st e s = Continue s'"
  shows "\<exists>img hs b hj bj ok.
           next_frame e = Inr (Some img, hs, b) \<and> hands_data hs = Inr hj \<and> body_data b = Inr bj
         \<and> imwrite e = Inr ok \<and> poses_append e = None
         \<and> \<not> max_duration cfg < t_loop e - st
         \<and> running s' = running s
         \<and> frame_count s' = Suc (frame_count s)
         \<and> timestamps s' = timestamps s @ [py_int ((t_loop e - st) * 1000)]
         \<and> trace s' = trace s @ frame_events cfg (frame_count s) img ok
              (frame_pose (frame_count s) (py_int ((t_loop e - st) * 1000)) hj bj)"
  using assms
  by (auto simp: frame_step_def disk_check_def persist_frame_def frame_events_def Let_def
      split: if_splits sum.splits option.splits prod.splits step.splits)

lemma frame_step_Break:
  assumes "frame_step cfg st e s = Break s'"
  shows "frame_count s' = frame_count s \<and> timestamps s' = timestamps s
       \<and> (trace s' = trace s \<or> trace s' = trace s @ [NextFrame])
       \<and> (running s' \<longrightarrow> running s)"
  using assms
  by (auto simp: frame_step_def disk_check_def persist_frame_def Let_def
      split: if_splits sum.splits option.splits prod.splits step.splits)

lemma frame_step_Throw:
  assumes "frame_step cfg st e s = Throw x s'"
  shows "frame_count s' = frame_count s \<and> timestamps s' = timestamps s
       \<and> running s' = running s
       \<and> (trace s' = trace s \<or> trace s' = trace s @ [NextFrame]
          \<or> (\<exists>img ok. trace s' = trace s @ [NextFrame, Imwrite (image_file cfg (frame_count s)) img ok]))"
  using assms
  by (auto simp: frame_step_def disk_check_def persist_frame_def Let_def
      split: if_splits sum.splits option.splits prod.splits step.splits)

lemma frame_loop_rule:
  assumes "I s"
    and "\<And>e s s'. I s \<Longrightarrow> running s \<Longrightarrow> frame_step cfg st e s = Continue s'
            \<Longrightarrow> I (signalled (signal_seen e) s')"
    and "\<And>e s s'. I s \<Longrightarrow> running s \<Longrightarrow> frame_step cfg st e s = Break s'
            \<Longrightarrow> Q (Done (signalled (signal_seen e) s'))"
    and "\<And>e s s' x. I s \<Longrightarrow> running s \<Longrightarrow> frame_step cfg st e s = Throw x s'
            \<Longrightarrow> Q (Threw x (signalled (signal_seen e) s'))"
    and "\<And>s. I s \<Longrightarrow> \<not> running s \<Longrightarrow> Q (Done s)"
    and "\<And>s. I s \<Longrightarrow> running s \<Longrightarrow> Q (Starved s)"
  shows "Q (frame_loop cfg st envs s)"
  using assms(1)
proof (induction envs arbitrary: s)
  case Nil
  then show ?case using assms(5,6) by simp
next
  case (Cons e es)
  show ?case
  proof (cases "running s")
    case False
    then show ?thesis using assms(5) Cons.prems by simp
  next
    case True
    show ?thesis
    proof (cases "frame_step cfg st e s")
      case (Continue s')
      then show ?thesis using True Cons.IH [OF assms(2) [OF Cons.prems True Continue]] by simp
    next
      case (Break s')
      then show ?thesis using True assms(3) [OF Cons.prems True Break] by simp
    next
      case (Throw x s')
      then show ?thesis using True assms(4) [OF Cons.prems True Throw] by simp
    qed
  qed
qed

lemma blocks_snoc:
  "blocks cfg (rows @ [(img, ok, j)]) = blocks cfg rows @ frame_events cfg (length rows) img ok j"
  by (simp add: blocks_def enumerate_append_eq)

lemma blocks_Nil [simp]: "blocks cfg [] = []"
  by (simp add: blocks_def)

lemma signalled_fields [simp]:
  "frame_count (signalled b s) = frame_count s"
  "timestamps (signalled b s) = timestamps s"
  "trace (signalled b s) = trace s"
  "last_status_time (signalled b s) = last_status_time s"
  "running (signalled b s) = (running s \<and> \<not> b)"
  by (simp_all add: signalled_def)

lemma shaped_signalled [simp]: "shaped cfg pre (signalled b s) rows tail = shaped cfg pre s rows tail"
  by (simp add: shaped_def)

lemma shaped_Continue:
  assumes "shaped cfg pre s rows []" "frame_step cfg st e s = Continue s'"
  shows "\<exists>r. shaped cfg pre s' (rows @ [r]) []"
proof -
  from frame_step_Continue [OF assms(2)] obtain img hj bj ok where
    fc: "frame_count s' = Suc (frame_count s)"
    and ts: "timestamps s' = timestamps s @ [py_int ((t_loop e - st) * 1000)]"
    and tr: "trace s' = trace s @ frame_events cfg (frame_count s) img ok
              (frame_pose (frame_count s) (py_int ((t_loop e - st) * 1000)) hj bj)"
    by blast
  let ?j = "frame_pose (frame_count s) (py_int ((t_loop e - st) * 1000)) hj bj"
  from assms(1) have len: "length rows = frame_count s" "length (timestamps s) = frame_count s"
    and old: "\<forall>i < length rows. \<exists>hj bj. snd (snd (rows ! i)) = frame_pose i (timestamps s ! i) hj bj"
    and tr0: "trace s = pre @ blocks cfg rows"
    by (simp_all add: shaped_def)
  have "\<exists>hj bj. snd (snd ((rows @ [(img, ok, ?j)]) ! i))
          = frame_pose i (timestamps s' ! i) hj bj" if "i < Suc (length rows)" for i
  proof (cases "i < length rows")
    case True
    then show ?thesis using old len by (simp add: nth_append ts)
  next
    case False
    with that have "i = length rows" by simp
    then show ?thesis using len by (auto simp: nth_append ts)
  qed
  then have "shaped cfg pre s' (rows @ [(img, ok, ?j)]) []"
    using len fc ts tr tr0 by (simp add: shaped_def blocks_snoc)
  then show ?thesis by blast
qed

lemma frame_loop_shape:
  assumes "shaped cfg pre s rows []"
  shows "\<exists>more tail. shaped cfg pre (end_state (frame_loop cfg st envs s)) (rows @ more) tail
           \<and> tail_ok cfg (frame_loop cfg st envs s) tail"
proof (rule frame_loop_rule [where I = "\<lambda>s. \<exists>more. shaped cfg pre s (rows @ more) []"
      and Q = "\<lambda>ex. \<exists>more tail. shaped cfg pre (end_state ex) (rows @ more) tail \<and> tail_ok cfg ex tail"])
  show "\<exists>more. shaped cfg pre s (rows @ more) []"
    using assms by (intro exI [of _ "[]"]) simp
next
  fix e s s'
  assume "\<exists>more. shaped cfg pre s (rows @ more) []" and "frame_step cfg st e s = Continue s'"
  then obtain more r where "shaped cfg pre s' ((rows @ more) @ [r]) []"
    using shaped_Continue by blast
  then show "\<exists>more. shaped cfg pre (signalled (signal_seen e) s') (rows @ more) []"
    by (intro exI [of _ "more @ [r]"]) simp
next
  fix e s s'
  assume "\<exists>more. shaped cfg pre s (rows @ more) []" and b: "frame_step cfg st e s = Break s'"
  then obtain more where m: "shaped cfg pre s (rows @ more) []" by blast
  from frame_step_Break [OF b] have
    "shaped cfg pre s' (rows @ more) [] \<or> shaped cfg pre s' (rows @ more) [NextFrame]"
    using m by (auto simp: shaped_def)
  then show "\<exists>more tail. shaped cfg pre (end_state (Done (signalled (signal_seen e) s'))) (rows @ more) tail
       \<and> tail_ok cfg (Done (signalled (signal_seen e) s')) tail"
    by (auto simp: tail_ok_def)
next
  fix e s s' x
  assume "\<exists>more. shaped cfg pre s (rows @ more) []" and b: "frame_step cfg st e s = Throw x s'"
  then obtain more where m: "shaped cfg pre s (rows @ more) []" by blast
  from frame_step_Throw [OF b] have
    "shaped cfg pre s' (rows @ more) [] \<or> shaped cfg pre s' (rows @ more) [NextFrame]
     \<or> (\<exists>img ok. shaped cfg pre s' (rows @ more) [NextFrame, Imwrite (image_file cfg (frame_count s')) img ok])"
    using m by (auto simp: shaped_def)
  then show "\<exists>more tail. shaped cfg pre (end_state (Threw x (signalled (signal_seen e) s'))) (rows @ more) tail
       \<and> tail_ok cfg (Threw x (signalled (signal_seen e) s')) tail"
    by (auto simp: tail_ok_def)
next
  fix s
  assume "\<exists>more. shaped cfg pre s (rows @ more) []"
  then show "\<exists>more tail. shaped cfg pre (end_state (Done s)) (rows @ more) tail \<and> tail_ok cfg (Done s) tail"
    by (auto simp: tail_ok_def)
next
  fix s
  assume "\<exists>more. shaped cfg pre s (rows @ more) []"
  then show "\<exists>more tail. shaped cfg pre (end_state (Starved s)) (rows @ more) tail \<and> tail_ok cfg (Starved s) tail"
    by (auto simp: tail_ok_def)
qed

lemma written_append [simp]: "written p (xs @ ys) = written p xs @ written p ys"
  by (induction p xs rule: written.induct) simp_all

lemma image_calls_append [simp]: "image_calls (xs @ ys) = image_calls xs @ image_calls ys"
  by (induction xs rule: image_calls.induct) simp_all

lemma lines_of_append [simp]: "lines_of (xs @ ys) = lines_of xs @ lines_of ys"
  by (induction xs rule: lines_of.induct) simp_all

lemma lines_of_map_Line [simp]: "lines_of (map Line js) = js"
  by (induction js) simp_all

lemma image_not_poses [simp]: "image_file cfg n \<noteq> poses_file cfg" "poses_file cfg \<noteq> image_file cfg n"
  by (simp_all add: image_file_def poses_file_def rgb_dir_def)

lemma image_not_metadata [simp]:
  "image_file cfg n \<noteq> metadata_file cfg" "metadata_file cfg \<noteq> image_file cfg n"
  by (simp_all add: image_file_def metadata_file_def rgb_dir_def)

lemma image_not_camera [simp]:
  "image_file cfg n \<noteq> camera_info_file cfg" "camera_info_file cfg \<noteq> image_file cfg n"
  by (simp_all add: image_file_def camera_info_file_def rgb_dir_def)

lemma metadata_not_poses [simp]:
  "metadata_file cfg \<noteq> poses_file cfg" "poses_file cfg \<noteq> metadata_file cfg"
  by (simp_all add: metadata_file_def poses_file_def)

lemma camera_not_poses [simp]:
  "camera_info_file cfg \<noteq> poses_file cfg" "poses_file cfg \<noteq> camera_info_file cfg"
  by (simp_all add: camera_info_file_def poses_file_def)

lemma camera_not_metadata [simp]:
  "camera_info_file cfg \<noteq> metadata_file cfg" "metadata_file cfg \<noteq> camera_info_file cfg"
  by (simp_all add: camera_info_file_def metadata_file_def)

lemma blocks_pose_events:
  "filter (on_path (poses_file cfg)) (blocks cfg rows)
     = concat (map (\<lambda>j. append_line (poses_file cfg) (Line j)) (map (\<lambda>r. snd (snd r)) rows))"
  by (induction rows rule: rev_induct)
    (auto simp: blocks_snoc frame_events_def append_line_def)

lemma blocks_written:
  "written (poses_file cfg) (blocks cfg rows) = map Line (map (\<lambda>r. snd (snd r)) rows)"
  by (induction rows rule: rev_induct)
    (auto simp: blocks_snoc frame_events_def append_line_def)

lemma blocks_image_calls:
  "image_calls (blocks cfg rows)
     = map (\<lambda>(i, img, ok, j). (image_file cfg i, img, ok)) (enumerate 0 rows)"
  by (induction rows rule: rev_induct)
    (auto simp: blocks_snoc frame_events_def append_line_def enumerate_append_eq)

lemma blocks_metadata_events:
  "filter (on_path (metadata_file cfg)) (blocks cfg rows) = []"
  by (induction rows rule: rev_induct)
    (auto simp: blocks_snoc frame_events_def append_line_def)

lemma active_shape:
  assumes "tracker_init env = None" "first_frame env = Inr (Some f, hs, b)"
    "session_setup cfg env = (None, evs)"
  shows "\<exists>rows tail closing.
      events (record_session cfg env r) = [TrackerInit, NextFrame] @ evs @ blocks cfg rows @ tail @ closing
    \<and> length rows = n_frames (record_session cfg env r)
    \<and> length (stamps (record_session cfg env r)) = n_frames (record_session cfg env r)
    \<and> (\<forall>i<length rows. \<exists>hj bj. snd (snd (rows ! i)) = frame_pose i (stamps (record_session cfg env r) ! i) hj bj)
    \<and> (tail = [] \<or> tail = [NextFrame]
        \<or> ((\<exists>x. status (record_session cfg env r) = Raised x) \<and> closing = []
            \<and> (\<exists>img ok. tail = [NextFrame, Imwrite (image_file cfg (n_frames (record_session cfg env r))) img ok])))
    \<and> (closing = [] \<and> (status (record_session cfg env r) = Unfinished \<or> (\<exists>x. status (record_session cfg env r) = Raised x))
       \<or> closing = [TrackerExit] \<and> (\<exists>x. status (record_session cfg env r) = Raised x \<and> write_meta env = Some x) \<and> 0 < n_frames (record_session cfg env r)
       \<or> closing = [TrackerExit] \<and> n_frames (record_session cfg env r) = 0 \<and> (\<exists>b. status (record_session cfg env r) = Returned b)
       \<or> closing = [TrackerExit] @ write_doc (metadata_file cfg)
            (Dump (session_metadata (now_iso env) (n_frames (record_session cfg env r)) (stamps (record_session cfg env r))))
          \<and> 0 < n_frames (record_session cfg env r) \<and> (\<exists>b. status (record_session cfg env r) = Returned b))"
proof -
  let ?pre = "[TrackerInit, NextFrame] @ evs"
  let ?s0 = "loop_init cfg env r evs"
  let ?ex = "frame_loop cfg (t_start env) (iters env) ?s0"
  have "shaped cfg ?pre ?s0 [] []"
    by (simp add: shaped_def loop_init_def)
  from frame_loop_shape [OF this, of "t_start env" "iters env"] obtain rows tail where
    sh: "shaped cfg ?pre (end_state ?ex) rows tail" and tl: "tail_ok cfg ?ex tail"
    by auto
  show ?thesis
  proof (cases ?ex)
    case (Done s)
    with tl have t: "tail = [] \<or> tail = [NextFrame]" by (auto simp: tail_ok_def)
    from Done sh have sh': "shaped cfg ?pre s rows tail" by simp
    have out: "record_session cfg env r = close_session cfg env s"
      using assms Done by (simp add: record_session_def)
    show ?thesis
    proof (cases "0 < frame_count s")
      case False
      then show ?thesis using sh' t unfolding out
        by (intro exI [of _ rows] exI [of _ tail] exI [of _ "[TrackerExit]"])
          (auto simp: close_session_def shaped_def Let_def)
    next
      case True
      show ?thesis
      proof (cases "write_meta env")
        case None
        then show ?thesis using sh' t True unfolding out
          by (intro exI [of _ rows] exI [of _ tail] exI [of _ "[TrackerExit] @ write_doc (metadata_file cfg)
            (Dump (session_metadata (now_iso env) (frame_count s) (timestamps s)))"])
            (auto simp: close_session_def shaped_def Let_def)
      next
        case (Some x)
        then show ?thesis using sh' t True unfolding out
          by (intro exI [of _ rows] exI [of _ tail] exI [of _ "[TrackerExit]"])
            (auto simp: close_session_def shaped_def Let_def)
      qed
    qed
  next
    case (Threw x s)
    have out: "record_session cfg env r = \<lparr>status = Raised x, events = trace s, run_flag = running s,
                          n_frames = frame_count s, stamps = timestamps s\<rparr>"
      using assms Threw by (simp add: record_session_def)
    from Threw sh tl show ?thesis unfolding out
      by (intro exI [of _ rows] exI [of _ tail] exI [of _ "[]"])
        (auto simp: shaped_def tail_ok_def)
  next
    case (Starved s)
    have out: "record_session cfg env r = \<lparr>status = Unfinished, events = trace s, run_flag = running s,
                          n_frames = frame_count s, stamps = timestamps s\<rparr>"
      using assms Starved by (simp add: record_session_def)
    from Starved sh tl show ?thesis unfolding out
      by (intro exI [of _ rows] exI [of _ tail] exI [of _ "[]"])
        (auto simp: shaped_def tail_ok_def)
  qed
qed

lemma replay_Nil [simp]: "replay f [] = f"
  by (simp add: replay_def)

lemma replay_Cons [simp]: "replay f (e # evs) = replay (apply_event e f) evs"
  by (simp add: replay_def)

lemma replay_append [simp]: "replay f (xs @ ys) = replay (replay f xs) ys"
  by (simp add: replay_def)

lemma apply_event_off: "\<not> on_path p e \<Longrightarrow> files (apply_event e f) p = files f p"
  by (cases "(e, f)" rule: apply_event.cases) auto

lemma apply_event_on:
  "files f p = files g p \<Longrightarrow> files (apply_event e f) p = files (apply_event e g) p"
  by (cases "(e, f)" rule: apply_event.cases) (auto simp: contents_def)

lemma files_replay_filter_gen:
  "files f p = files g p \<Longrightarrow>
     files (replay f evs) p = files (replay g (filter (on_path p) evs)) p"
proof (induction evs arbitrary: f g)
  case Nil
  then show ?case by simp
next
  case (Cons e evs)
  show ?case
  proof (cases "on_path p e")
    case True
    from Cons.prems have "files (apply_event e f) p = files (apply_event e g) p"
      by (rule apply_event_on)
    from Cons.IH [OF this] True show ?thesis by simp
  next
    case False
    with Cons.prems have "files (apply_event e f) p = files g p"
      by (simp add: apply_event_off)
    from Cons.IH [OF this] False show ?thesis by simp
  qed
qed

lemma files_replay_filter:
  "files (replay f evs) p = files (replay f (filter (on_path p) evs)) p"
  by (rule files_replay_filter_gen) simp

lemma files_replay_untouched:
  "filter (on_path p) evs = [] \<Longrightarrow> files (replay f evs) p = files f p"
  using files_replay_filter [of f evs p] by simp

lemma apply_event_extends:
  assumes "files f p = Some cs" "\<not> truncates p e"
  shows "files (apply_event e f) p = Some (cs @ written p [e])"
  using assms by (cases "(e, f)" rule: apply_event.cases) (auto simp: contents_def)

lemma replay_extends:
  "files f p = Some cs \<Longrightarrow> \<forall>e \<in> set evs. \<not> truncates p e \<Longrightarrow>
     files (replay f evs) p = Some (cs @ written p evs)"
proof (induction evs arbitrary: f cs)
  case Nil
  then show ?case by simp
next
  case (Cons e evs)
  from Cons.prems have "files (apply_event e f) p = Some (cs @ written p [e])"
    by (simp add: apply_event_extends)
  from Cons.IH [OF this] Cons.prems(2) have
    "files (replay (apply_event e f) evs) p = Some ((cs @ written p [e]) @ written p evs)"
    by simp
  moreover have "written p (e # evs) = written p [e] @ written p evs"
    using written_append [of p "[e]" evs] by simp
  ultimately show ?case by simp
qed

lemma written_take_prefix:
  "written p (take k evs) = take (length (written p (take k evs))) (written p evs)"
proof -
  have "written p evs = written p (take k evs) @ written p (drop k evs)"
    by (metis append_take_drop_id written_append)
  then show ?thesis by simp
qed

lemma crash_prefix:
  assumes evs: "evs = pre0 @ Open p ModeW # rest"
    and pre0: "written p pre0 = []"
    and rest: "\<forall>e \<in> set rest. \<not> truncates p e"
    and seen: "written p (take k evs) \<noteq> []"
  shows "files (replay f (take k evs)) p = Some (written p (take k evs))"
proof (cases "k \<le> length pre0")
  case True
  then have "take k evs = take k pre0" by (simp add: evs)
  moreover have "written p (take k pre0) = []"
    using written_take_prefix [of p k pre0] pre0 by simp
  ultimately show ?thesis using seen by simp
next
  case False
  then obtain k' where k': "k = Suc (length pre0 + k')"
    by (metis add_Suc_right less_imp_Suc_add not_le)
  have tk: "take k evs = pre0 @ Open p ModeW # take k' rest"
    by (simp add: evs k')
  have "files (replay f (pre0 @ [Open p ModeW])) p = Some []"
    by simp
  moreover have "\<forall>e \<in> set (take k' rest). \<not> truncates p e"
    using rest by (meson in_set_takeD)
  ultimately have "files (replay (replay f (pre0 @ [Open p ModeW])) (take k' rest)) p
      = Some ([] @ written p (take k' rest))"
    by (rule replay_extends)
  then show ?thesis by (simp add: tk pre0)
qed

section \<open>Hand detections: which missing attributes are tolerated\<close>

lemma hand_data_labelled:
  assumes "labelled h"
  shows "\<exists>d. hand_data h = Inr d
           \<and> jget ''landmarks_2d'' d =
               Some (case landmarks h of Val m \<Rightarrow> json_mat m | _ \<Rightarrow> JList [])
           \<and> jget ''landmarks_3d'' d =
               Some (case world_landmarks h of Val m \<Rightarrow> json_mat m | _ \<Rightarrow> JList [])
           \<and> jget ''palm_xyz'' d = (case xyz h of Val v \<Rightarrow> Some (json_vec v) | _ \<Rightarrow> None)"
  using assms
  by (auto simp: labelled_def hand_data_def jget_def split: attr.splits)

lemma hands_data_pointwise:
  "\<forall>h \<in> set hs. labelled h \<Longrightarrow>
     \<exists>ds. hands_data hs = Inr ds \<and> length ds = length hs
       \<and> (\<forall>i < length hs. hand_data (hs ! i) = Inr (ds ! i))"
proof (induction hs)
  case Nil
  then show ?case by simp
next
  case (Cons h hs)
  then obtain ds where ds: "hands_data hs = Inr ds" "length ds = length hs"
    "\<forall>i < length hs. hand_data (hs ! i) = Inr (ds ! i)"
    by auto
  from Cons.prems obtain d where d: "hand_data h = Inr d"
    using hand_data_labelled [of h] by auto
  show ?case
    using ds d by (auto simp: nth_Cons split: nat.splits)
qed

lemma json_mat_not_null: "(case a of Val m \<Rightarrow> json_mat m | _ \<Rightarrow> JList []) \<noteq> JNull"
  by (simp add: json_mat_def split: attr.splits)

text \<open>
  C5, as the code has it. A detection without \<open>label\<close> makes
  \<open>hand.label.capitalize()\<close> raise \<open>AttributeError\<close>, although its landmarks are there:
  the derivation is not tolerant of every missing attribute.
\<close>

theorem hand_data_missing_label_raises:
  "hand_data \<lparr>label = Absent, lm_score = Val 0.9, landmarks = Val [ [1, 2] ],
              world_landmarks = Absent, xyz = Absent\<rparr> = Inl AttributeError"
  by (simp add: hand_data_def)

text \<open>
  C5, amended. For detections that carry a label and a landmark score, deriving the
  entries of a frame never raises, whichever of \<open>landmarks\<close>, \<open>world_landmarks\<close> and
  \<open>xyz\<close> are missing or \<open>None\<close>: there is one entry per detection, its 2D and 3D landmark
  fields are the arrays when present and the empty sequence otherwise (never null), and
  the palm position is present exactly when \<open>xyz\<close> has a value.
\<close>

theorem hands_data_tolerant:
  assumes "\<forall>h \<in> set hs. labelled h"
  shows "\<exists>ds. hands_data hs = Inr ds \<and> length ds = length hs \<and>
           (\<forall>i < length hs.
              jget ''landmarks_2d'' (ds ! i) =
                Some (case landmarks (hs ! i) of Val m \<Rightarrow> json_mat m | _ \<Rightarrow> JList [])
            \<and> jget ''landmarks_3d'' (ds ! i) =
                Some (case world_landmarks (hs ! i) of Val m \<Rightarrow> json_mat m | _ \<Rightarrow> JList [])
            \<and> jget ''landmarks_2d'' (ds ! i) \<noteq> Some JNull
            \<and> jget ''landmarks_3d'' (ds ! i) \<noteq> Some JNull
            \<and> jget ''palm_xyz'' (ds ! i) =
                (case xyz (hs ! i) of Val v \<Rightarrow> Some (json_vec v) | _ \<Rightarrow> None))"
proof -
  from hands_data_pointwise [OF assms] obtain ds where ds: "hands_data hs = Inr ds"
    "length ds = length hs" "\<forall>i < length hs. hand_data (hs ! i) = Inr (ds ! i)"
    by blast
  have "jget ''landmarks_2d'' (ds ! i) =
          Some (case landmarks (hs ! i) of Val m \<Rightarrow> json_mat m | _ \<Rightarrow> JList [])
      \<and> jget ''landmarks_3d'' (ds ! i) =
          Some (case world_landmarks (hs ! i) of Val m \<Rightarrow> json_mat m | _ \<Rightarrow> JList [])
      \<and> jget ''landmarks_2d'' (ds ! i) \<noteq> Some JNull
      \<and> jget ''landmarks_3d'' (ds ! i) \<noteq> Some JNull
      \<and> jget ''palm_xyz'' (ds ! i) =
          (case xyz (hs ! i) of Val v \<Rightarrow> Some (json_vec v) | _ \<Rightarrow> None)"
    if "i < length hs" for i
  proof -
    from that assms have "labelled (hs ! i)" by simp
    from hand_data_labelled [OF this] ds(3) that show ?thesis
      by (auto simp: json_mat_not_null)
  qed
  with ds(1,2) show ?thesis by blast
qed

lemma capitalize_right: "capitalize ''right'' = ''Right''"
  by code_simp

theorem hands_data_tolerant_witness:
  "labelled \<lparr>label = Val ''right'', lm_score = Val 0.9, landmarks = Absent,
              world_landmarks = PyNone, xyz = Absent\<rparr>
   \<and> hands_data [\<lparr>label = Val ''right'', lm_score = Val 0.9, landmarks = Absent,
                  world_landmarks = PyNone, xyz = Absent\<rparr>]
       = Inr [JObj [(''handedness'', JStr ''Right''), (''confidence'', JNum 0.9),
                    (''landmarks_2d'', JList []), (''landmarks_3d'', JList [])]]"
  using hands_data_tolerant [of "[\<lparr>label = Val ''right'', lm_score = Val 0.9,
    landmarks = Absent, world_landmarks = PyNone, xyz = Absent\<rparr>]"]
  by (simp add: labelled_def hand_data_def capitalize_right del: capitalize.simps)

section \<open>The verification gate\<close>

lemma session_setup_events:
  "(snd (session_setup cfg env) = [] \<and> fst (session_setup cfg env) \<noteq> None)
   \<or> (\<exists>more. snd (session_setup cfg env) = MkdirParents (output_dir cfg) # more)"
  by (simp add: session_setup_def Let_def write_doc_def split: option.splits)

lemma session_setup_None:
  assumes "session_setup cfg env = (None, evs)"
  shows "evs = [MkdirParents (output_dir cfg), Mkdir (rgb_dir cfg)]
           @ write_doc (camera_info_file cfg) (Dump (camera_info (resolve_intrinsics env)))
           @ write_doc (poses_file cfg) (Line (header (resolve_intrinsics env)))"
  using assms
  by (auto simp: session_setup_def Let_def split: option.splits)

lemma gate_passes:
  assumes "\<not> gate_fails env"
  obtains frame hs b where "tracker_init env = None" "first_frame env = Inr (Some frame, hs, b)"
  using assms by (auto simp: gate_fails_def split: option.splits sum.splits prod.splits)

lemma session_events_prefix:
  assumes "\<not> gate_fails env"
  shows "\<exists>rest. events (record_session cfg env r)
            = [TrackerInit, NextFrame] @ snd (session_setup cfg env) @ rest
          \<and> (snd (session_setup cfg env) = [] \<longrightarrow> rest = [])"
proof -
  from assms obtain frame hs b where g: "tracker_init env = None"
    "first_frame env = Inr (Some frame, hs, b)"
    by (rule gate_passes)
  obtain x evs where su: "session_setup cfg env = (x, evs)" by (cases "session_setup cfg env")
  show ?thesis
  proof (cases x)
    case None
    with su have su': "session_setup cfg env = (None, evs)" by simp
    from active_shape [OF g su', of r] obtain rows tail closing where
      "events (record_session cfg env r) = [TrackerInit, NextFrame] @ evs @ blocks cfg rows @ tail @ closing"
      by blast
    moreover from session_setup_None [OF su'] have "evs \<noteq> []" by simp
    ultimately show ?thesis using su by auto
  next
    case (Some e)
    with su g show ?thesis by (simp add: record_session_def)
  qed
qed

text \<open>
  C1. When the pose source cannot be constructed, or the single verification pull raises or
  yields no frame, \<open>record_session\<close> makes exactly the calls listed (construction, at
  most one pull followed by the release, one sleep of five seconds), touches neither a
  directory nor a file, so that every store is left as it was, and returns the value the
  global \<open>running\<close> has at that moment. Conversely, whenever a session touches the
  store, the gate was passed, the calls before the first store operation are the
  construction and the successful pull, and that first operation creates the output
  directory.
\<close>

theorem verification_gate:
  "(gate_fails env \<longrightarrow>
      status (record_session cfg env r) = Returned (r \<and> \<not> signal_setup env)
    \<and> run_flag (record_session cfg env r) = (r \<and> \<not> signal_setup env)
    \<and> (events (record_session cfg env r) = [TrackerInit, Sleep 5]
       \<or> events (record_session cfg env r) = [TrackerInit, NextFrame, TrackerExit, Sleep 5])
    \<and> filter touches_store (events (record_session cfg env r)) = []
    \<and> replay f (events (record_session cfg env r)) = f)
 \<and> (filter touches_store (events (record_session cfg env r)) \<noteq> [] \<longrightarrow>
      \<not> gate_fails env
    \<and> takeWhile (\<lambda>e. \<not> touches_store e) (events (record_session cfg env r))
        = [TrackerInit, NextFrame]
    \<and> hd (filter touches_store (events (record_session cfg env r)))
        = MkdirParents (output_dir cfg))"
proof (intro conjI impI)
  assume g: "gate_fails env"
  then have out: "record_session cfg env r = backoff r env [TrackerInit]
      \<or> record_session cfg env r = backoff r env [TrackerInit, NextFrame, TrackerExit]"
    by (auto simp: gate_fails_def record_session_def split: option.splits sum.splits prod.splits)
  from out show "status (record_session cfg env r) = Returned (r \<and> \<not> signal_setup env)"
    by (auto simp: backoff_def)
  from out show "run_flag (record_session cfg env r) = (r \<and> \<not> signal_setup env)"
    by (auto simp: backoff_def)
  from out show "events (record_session cfg env r) = [TrackerInit, Sleep 5]
       \<or> events (record_session cfg env r) = [TrackerInit, NextFrame, TrackerExit, Sleep 5]"
    by (auto simp: backoff_def)
  from out show "filter touches_store (events (record_session cfg env r)) = []"
    by (auto simp: backoff_def)
  from out show "replay f (events (record_session cfg env r)) = f"
    by (auto simp: backoff_def)
next
  assume ne: "filter touches_store (events (record_session cfg env r)) \<noteq> []"
  show ng: "\<not> gate_fails env"
  proof
    assume g: "gate_fails env"
    then have "record_session cfg env r = backoff r env [TrackerInit]
      \<or> record_session cfg env r = backoff r env [TrackerInit, NextFrame, TrackerExit]"
      by (auto simp: gate_fails_def record_session_def split: option.splits sum.splits prod.splits)
    with ne show False by (auto simp: backoff_def)
  qed
  from session_events_prefix [OF ng, of cfg r] obtain rest where
    ev: "events (record_session cfg env r) = [TrackerInit, NextFrame] @ snd (session_setup cfg env) @ rest"
    and e0: "snd (session_setup cfg env) = [] \<longrightarrow> rest = []"
    by blast
  obtain x evs where su: "session_setup cfg env = (x, evs)" by (cases "session_setup cfg env")
  from session_setup_events [of cfg env] ne ev e0 su obtain more where
    more: "evs = MkdirParents (output_dir cfg) # more"
    by auto
  show "takeWhile (\<lambda>e. \<not> touches_store e) (events (record_session cfg env r)) = [TrackerInit, NextFrame]"
    using ev su more by simp
  show "hd (filter touches_store (events (record_session cfg env r))) = MkdirParents (output_dir cfg)"
    using ev su more by simp
qed

theorem verification_gate_witness:
  "gate_fails (sample_env (Inr (None, [], Some [])) [])
   \<and> events (record_session sample_config (sample_env (Inr (None, [], Some [])) []) True)
       = [TrackerInit, NextFrame, TrackerExit, Sleep 5]
   \<and> status (record_session sample_config (sample_env (Inr (None, [], Some [])) []) True)
       = Returned True
   \<and> filter touches_store
        (events (record_session sample_config (sample_env (Inr (Some [7], [], None))
           [sample_pass 101 (Inr (None, [], None))]) True)) \<noteq> []
   \<and> \<not> gate_fails (sample_env (Inr (Some [7], [], None)) [sample_pass 101 (Inr (None, [], None))])"
  using verification_gate [of "sample_env (Inr (None, [], Some [])) []" sample_config True]
    verification_gate [of "sample_env (Inr (Some [7], [], None)) [sample_pass 101 (Inr (None, [], None))]"
      sample_config True]
  by (simp add: gate_fails_def sample_env_def sample_config_def sample_pass_def record_session_def
      backoff_def session_setup_def write_doc_def Let_def loop_init_def frame_step_def
      disk_check_def close_session_def signalled_def)

section \<open>The pose stream of a session\<close>

lemma written_filter: "written p (filter (on_path p) evs) = written p evs"
  by (induction p evs rule: written.induct) simp_all

lemma blocks_no_truncate: "e \<in> set (blocks cfg rows) \<Longrightarrow> \<not> truncates (poses_file cfg) e"
  by (induction rows rule: rev_induct)
    (auto simp: blocks_snoc frame_events_def append_line_def)

lemma session_setup_None':
  "session_setup cfg env = (None, evs) \<Longrightarrow> evs = setup_events cfg (resolve_intrinsics env)"
  using session_setup_None [of cfg env evs] by (simp add: setup_events_def)

lemma setup_failed_pose_events:
  "session_setup cfg env = (Some x, evs) \<Longrightarrow> filter (on_path (poses_file cfg)) evs = []"
  by (cases "mkdir_out env"; cases "mkdir_rgb env"; cases "write_camera env";
      cases "write_header env")
    (auto simp: session_setup_def Let_def write_doc_def)

text \<open>Every run: either nothing was done on the pose stream, or header and records.\<close>

lemma pose_stream_shape:
  "(filter (on_path (poses_file cfg)) (events (record_session cfg env r)) = []
      \<and> n_frames (record_session cfg env r) = 0 \<and> stamps (record_session cfg env r) = []
      \<and> (gate_fails env \<or> fst (session_setup cfg env) \<noteq> None))
   \<or> (\<exists>recs. filter (on_path (poses_file cfg)) (events (record_session cfg env r))
          = write_doc (poses_file cfg) (Line (header (resolve_intrinsics env)))
              @ concat (map (\<lambda>j. append_line (poses_file cfg) (Line j)) recs)
        \<and> length recs = n_frames (record_session cfg env r)
        \<and> length (stamps (record_session cfg env r)) = n_frames (record_session cfg env r)
        \<and> (\<forall>i < length recs. \<exists>hj bj.
              recs ! i = frame_pose i (stamps (record_session cfg env r) ! i) hj bj)
        \<and> \<not> gate_fails env \<and> fst (session_setup cfg env) = None)"
proof (cases "gate_fails env")
  case True
  then have "record_session cfg env r = backoff r env [TrackerInit]
      \<or> record_session cfg env r = backoff r env [TrackerInit, NextFrame, TrackerExit]"
    by (auto simp: gate_fails_def record_session_def split: option.splits sum.splits prod.splits)
  with True show ?thesis by (auto simp: backoff_def)
next
  case False
  then obtain frame hs b where g: "tracker_init env = None"
    "first_frame env = Inr (Some frame, hs, b)"
    by (rule gate_passes)
  obtain x evs where su: "session_setup cfg env = (x, evs)" by (cases "session_setup cfg env")
  show ?thesis
  proof (cases x)
    case (Some e)
    with su have su': "session_setup cfg env = (Some e, evs)" by simp
    from setup_failed_pose_events [OF su'] su' g show ?thesis
      by (simp add: record_session_def)
  next
    case None
    with su have su': "session_setup cfg env = (None, evs)" by simp
    let ?out = "record_session cfg env r"
    from active_shape [OF g su', of r] obtain rows tail closing where
      ev: "events ?out = [TrackerInit, NextFrame] @ evs @ blocks cfg rows @ tail @ closing"
      and len: "length rows = n_frames ?out" "length (stamps ?out) = n_frames ?out"
      and recs: "\<forall>i<length rows. \<exists>hj bj. snd (snd (rows ! i)) = frame_pose i (stamps ?out ! i) hj bj"
      and tl: "tail = [] \<or> tail = [NextFrame]
        \<or> (\<exists>img ok. tail = [NextFrame, Imwrite (image_file cfg (n_frames ?out)) img ok])"
      and cl: "closing = [] \<or> closing = [TrackerExit]
        \<or> closing = [TrackerExit] @ write_doc (metadata_file cfg)
            (Dump (session_metadata (now_iso env) (n_frames ?out) (stamps ?out)))"
      by blast
    have e1: "filter (on_path (poses_file cfg)) evs
        = write_doc (poses_file cfg) (Line (header (resolve_intrinsics env)))"
      by (simp add: session_setup_None' [OF su'] setup_events_def write_doc_def)
    from tl have e2: "filter (on_path (poses_file cfg)) tail = []" by auto
    from cl have e3: "filter (on_path (poses_file cfg)) closing = []"
      by (auto simp: write_doc_def)
    have "filter (on_path (poses_file cfg)) (events ?out)
        = write_doc (poses_file cfg) (Line (header (resolve_intrinsics env)))
            @ concat (map (\<lambda>j. append_line (poses_file cfg) (Line j)) (map (\<lambda>r. snd (snd r)) rows))"
      by (simp add: ev e1 e2 e3 blocks_pose_events)
    moreover have "\<forall>i < length (map (\<lambda>r. snd (snd r)) rows). \<exists>hj bj.
        map (\<lambda>r. snd (snd r)) rows ! i = frame_pose i (stamps ?out ! i) hj bj"
      using recs by simp
    ultimately show ?thesis using len False su' 
      by (intro disjI2 exI [of _ "map (\<lambda>r. snd (snd r)) rows"]) simp
  qed
qed

lemma written_pose_blocks:
  "written p (concat (map (\<lambda>j. append_line p (Line j)) recs)) = map Line recs"
  by (induction recs) (simp_all add: append_line_def)

lemma pose_stream_written:
  "(written (poses_file cfg) (events (record_session cfg env r)) = []
      \<and> n_frames (record_session cfg env r) = 0 \<and> stamps (record_session cfg env r) = []
      \<and> (gate_fails env \<or> fst (session_setup cfg env) \<noteq> None))
   \<or> (\<exists>recs. written (poses_file cfg) (events (record_session cfg env r))
          = Line (header (resolve_intrinsics env)) # map Line recs
        \<and> length recs = n_frames (record_session cfg env r)
        \<and> length (stamps (record_session cfg env r)) = n_frames (record_session cfg env r)
        \<and> (\<forall>i < length recs. \<exists>hj bj.
              recs ! i = frame_pose i (stamps (record_session cfg env r) ! i) hj bj)
        \<and> \<not> gate_fails env \<and> fst (session_setup cfg env) = None)"
proof -
  let ?evs = "events (record_session cfg env r)"
  let ?p = "poses_file cfg"
  from pose_stream_shape [of cfg env r] show ?thesis
  proof (rule disjE)
    assume none: "filter (on_path ?p) ?evs = [] \<and> n_frames (record_session cfg env r) = 0
      \<and> stamps (record_session cfg env r) = []
      \<and> (gate_fails env \<or> fst (session_setup cfg env) \<noteq> None)"
    then have "written ?p ?evs = []"
      using written_filter [of ?p ?evs] by simp
    with none show ?thesis by blast
  next
    assume "\<exists>recs. filter (on_path ?p) ?evs
          = write_doc ?p (Line (header (resolve_intrinsics env)))
              @ concat (map (\<lambda>j. append_line ?p (Line j)) recs)
        \<and> length recs = n_frames (record_session cfg env r)
        \<and> length (stamps (record_session cfg env r)) = n_frames (record_session cfg env r)
        \<and> (\<forall>i < length recs. \<exists>hj bj.
              recs ! i = frame_pose i (stamps (record_session cfg env r) ! i) hj bj)
        \<and> \<not> gate_fails env \<and> fst (session_setup cfg env) = None"
    then obtain recs where some:
      "filter (on_path ?p) ?evs = write_doc ?p (Line (header (resolve_intrinsics env)))
              @ concat (map (\<lambda>j. append_line ?p (Line j)) recs)"
      "length recs = n_frames (record_session cfg env r)"
      "length (stamps (record_session cfg env r)) = n_frames (record_session cfg env r)"
      "\<forall>i < length recs. \<exists>hj bj.
         recs ! i = frame_pose i (stamps (record_session cfg env r) ! i) hj bj"
      "\<not> gate_fails env" "fst (session_setup cfg env) = None"
      by blast
    have "written ?p ?evs = written ?p (filter (on_path ?p) ?evs)"
      by (simp add: written_filter)
    also have "\<dots> = Line (header (resolve_intrinsics env)) # map Line recs"
      by (simp add: some(1) written_pose_blocks write_doc_def)
    finally show ?thesis using some(2-) by blast
  qed
qed

text \<open>A session that wrote the header: where the pose stream is created, and that nothing
  after that replaces its content.\<close>

lemma pose_stream_split:
  assumes "\<not> gate_fails env" "fst (session_setup cfg env) = None"
  shows "\<exists>pre0 rest. events (record_session cfg env r) = pre0 @ Open (poses_file cfg) ModeW # rest
           \<and> written (poses_file cfg) pre0 = []
           \<and> (\<forall>e \<in> set rest. \<not> truncates (poses_file cfg) e)"
proof -
  from assms(1) obtain frame hs b where g: "tracker_init env = None"
    "first_frame env = Inr (Some frame, hs, b)"
    by (rule gate_passes)
  from assms(2) obtain evs where su: "session_setup cfg env = (None, evs)"
    by (cases "session_setup cfg env") simp
  let ?out = "record_session cfg env r"
  let ?p = "poses_file cfg"
  from active_shape [OF g su, of r] obtain rows tail closing where
    ev: "events ?out = [TrackerInit, NextFrame] @ evs @ blocks cfg rows @ tail @ closing"
    and tl: "tail = [] \<or> tail = [NextFrame]
        \<or> (\<exists>img ok. tail = [NextFrame, Imwrite (image_file cfg (n_frames ?out)) img ok])"
    and cl: "closing = [] \<or> closing = [TrackerExit]
        \<or> closing = [TrackerExit] @ write_doc (metadata_file cfg)
            (Dump (session_metadata (now_iso env) (n_frames ?out) (stamps ?out)))"
    by blast
  let ?pre0 = "[TrackerInit, NextFrame, MkdirParents (output_dir cfg), Mkdir (rgb_dir cfg)]
       @ write_doc (camera_info_file cfg) (Dump (camera_info (resolve_intrinsics env)))"
  let ?rest = "[Write ?p (Line (header (resolve_intrinsics env))), Close ?p]
       @ blocks cfg rows @ tail @ closing"
  have "events ?out = ?pre0 @ Open ?p ModeW # ?rest"
    by (simp add: ev session_setup_None' [OF su] setup_events_def write_doc_def)
  moreover have "written ?p ?pre0 = []"
    by (simp add: write_doc_def)
  moreover have "\<forall>e \<in> set ?rest. \<not> truncates ?p e"
    using tl cl by (auto simp: write_doc_def dest: blocks_no_truncate)
  ultimately show ?thesis by blast
qed

lemma pose_stream_prefix_content:
  assumes "written (poses_file cfg) (take k (events (record_session cfg env r))) \<noteq> []"
  shows "files (replay f (take k (events (record_session cfg env r)))) (poses_file cfg)
           = Some (written (poses_file cfg) (take k (events (record_session cfg env r))))"
proof -
  let ?evs = "events (record_session cfg env r)"
  let ?p = "poses_file cfg"
  have "written ?p ?evs \<noteq> []"
    using assms written_take_prefix [of ?p k ?evs] by auto
  with pose_stream_written [of cfg env r] have "\<not> gate_fails env" "fst (session_setup cfg env) = None"
    by auto
  from pose_stream_split [OF this, of r] obtain pre0 rest where
    "?evs = pre0 @ Open ?p ModeW # rest" "written ?p pre0 = []" "\<forall>e \<in> set rest. \<not> truncates ?p e"
    by blast
  from crash_prefix [OF this assms] show ?thesis .
qed

section \<open>The sample session, evaluated\<close>

lemma py_int_1000 [simp]: "py_int 1000 = 1000" "py_int 2000 = 2000"
  by (simp_all add: py_int_def)

lemma sample_hands: "hands_data [sample_hand]
  = Inr [JObj [(''handedness'', JStr ''Right''), (''confidence'', JNum 0.9),
                    (''landmarks_2d'', JList []), (''landmarks_3d'', JList [])]]"
  by (simp add: sample_hand_def hand_data_def capitalize_right del: capitalize.simps)

lemma sample_run:
  "record_session sample_config sample_session True =
     \<lparr>status = Returned True,
      events = [TrackerInit, NextFrame]
        @ setup_events sample_config (default_intrinsics (1920, 1080))
        @ frame_events sample_config 0 [1] True (frame_pose 0 1000 [] JNull)
        @ frame_events sample_config 1 [2] True
            (frame_pose 1 2000
               [JObj [(''handedness'', JStr ''Right''), (''confidence'', JNum 0.9),
                      (''landmarks_2d'', JList []), (''landmarks_3d'', JList [])]] JNull)
        @ [NextFrame, TrackerExit]
        @ write_doc (metadata_file sample_config)
            (Dump (session_metadata ''2024-01-01T12:00:00'' 2 [1000, 2000])),
      run_flag = True, n_frames = 2, stamps = [1000, 2000]\<rparr>"
  by (simp add: sample_session_def sample_env_def sample_pass_def record_session_def
      session_setup_def setup_events_def resolve_intrinsics_def loop_init_def
      frame_step_def disk_check_def persist_frame_def body_data_def bag_body_def
      close_session_def frame_events_def sample_hands Let_def sample_config_def
      signalled_def numeral_2_eq_2 del: hands_data.simps(2))

section \<open>Header and records of the pose stream\<close>

lemma pose_stream_final_content:
  assumes "written (poses_file cfg) (events (record_session cfg env r)) \<noteq> []"
  shows "files (replay f (events (record_session cfg env r))) (poses_file cfg)
           = Some (written (poses_file cfg) (events (record_session cfg env r)))"
  using pose_stream_prefix_content
    [of cfg "length (events (record_session cfg env r))" env r f] assms
  by simp

lemma frame_pose_fields [simp]:
  "jget ''_type'' (frame_pose i t hj bj) = Some (JStr ''frame'')"
  "jget ''frame_idx'' (frame_pose i t hj bj) = Some (JInt (int i))"
  "jget ''timestamp_ms'' (frame_pose i t hj bj) = Some (JInt t)"
  "jget ''hands'' (frame_pose i t hj bj) = Some (JList hj)"
  "jget ''body'' (frame_pose i t hj bj) = Some bj"
  by (simp_all add: frame_pose_def jget_def)

lemma header_fields:
  "jget ''_type'' (header i) = Some (JStr ''header'')"
  "jget ''intrinsics'' (header i) = Some (intrinsics_json i)"
  "jget ''landmark_names'' (header i) = Some (JList (map JStr HAND_LANDMARK_NAMES))"
  "jget ''body_keypoint_names'' (header i) = Some (JList (map JStr BODY_KEYPOINT_NAMES))"
  by (simp_all add: header_def jget_def)

lemma schema_lengths:
  "length HAND_LANDMARK_NAMES = 21" "length BODY_KEYPOINT_NAMES = 17"
  by (simp_all add: HAND_LANDMARK_NAMES_def BODY_KEYPOINT_NAMES_def)


lemma sample_gate: "\<not> gate_fails sample_session"
  by (simp add: gate_fails_def sample_session_def sample_env_def)

lemma sample_setup: "fst (session_setup sample_config sample_session) = None"
  by (simp add: session_setup_def sample_session_def sample_env_def Let_def)

lemma sample_intrinsics: "resolve_intrinsics sample_session = default_intrinsics (1920, 1080)"
  by (simp add: resolve_intrinsics_def sample_session_def sample_env_def)

lemma sample_written:
  "written (poses_file sample_config) (events (record_session sample_config sample_session True))
     = [Line (header (default_intrinsics (1920, 1080))),
        Line (frame_pose 0 1000 [] JNull),
        Line (frame_pose 1 2000
               [JObj [(''handedness'', JStr ''Right''), (''confidence'', JNum 0.9),
                      (''landmarks_2d'', JList []), (''landmarks_3d'', JList [])]] JNull)]"
  by (simp add: sample_run setup_events_def frame_events_def write_doc_def append_line_def)


section \<open>Numbering and time stamps of the frame records\<close>

lemma digits_value_snoc: "digits_value (ds @ [c]) = 10 * digits_value ds + (of_char c - 48)"
  by (simp add: digits_value_def)

lemma digit_char_value: "d < 10 \<Longrightarrow> (of_char (digit_char d) :: nat) - 48 = d"
  by (simp add: digit_char_def)

lemma digits_value_decimal: "digits_value (decimal n) = n"
proof (induction n rule: decimal.induct)
  case (1 n)
  show ?case
  proof (cases "n < 10")
    case True
    then show ?thesis
      using digits_value_snoc [of "[]" "digit_char n"]
      by (simp add: decimal.simps [of n] digit_char_value digits_value_def)
  next
    case False
    with 1 have "digits_value (decimal (n div 10)) = n div 10" by simp
    with False show ?thesis
      by (simp add: decimal.simps [of n] digits_value_snoc digit_char_value)
  qed
qed

lemma digits_value_zero_Cons: "digits_value (CHR ''0'' # ds) = digits_value ds"
  by (simp add: digits_value_def)

lemma digits_value_zeros: "digits_value (replicate k (CHR ''0'') @ ds) = digits_value ds"
  by (induction k) (simp_all add: digits_value_zero_Cons)

lemma frame_name_digits:
  "\<exists>ds. frame_name k = ''frame_'' @ ds \<and> 6 \<le> length ds \<and> digits_value ds = k"
  by (intro exI [of _ "replicate (6 - length (decimal k)) (CHR ''0'') @ decimal k"])
    (simp add: frame_name_def digits_value_zeros digits_value_decimal)

lemma image_file_inj: "image_file cfg i = image_file cfg j \<Longrightarrow> i = j"
proof -
  assume "image_file cfg i = image_file cfg j"
  then have "frame_name i = frame_name j" by (simp add: image_file_def)
  then have "digits_value (replicate (6 - length (decimal i)) (CHR ''0'') @ decimal i)
      = digits_value (replicate (6 - length (decimal j)) (CHR ''0'') @ decimal j)"
    by (simp add: frame_name_def)
  then show "i = j" by (simp only: digits_value_zeros digits_value_decimal)
qed

lemma py_int_mono: "x \<le> y \<Longrightarrow> py_int x \<le> py_int y"
  unfolding py_int_def
  by (auto intro: floor_mono ceiling_mono) (smt (verit) ceiling_le_zero zero_le_floor order_trans)

lemma frame_loop_sorted:
  assumes "sorted (map t_loop envs)" "sorted (timestamps s)"
    "\<forall>t \<in> set (timestamps s). \<forall>e \<in> set envs. t \<le> py_int ((t_loop e - st) * 1000)"
  shows "sorted (timestamps (end_state (frame_loop cfg st envs s)))"
  using assms
proof (induction envs arbitrary: s)
  case Nil
  then show ?case by simp
next
  case (Cons e es)
  show ?case
  proof (cases "running s")
    case False
    then show ?thesis using Cons.prems by simp
  next
    case True
    show ?thesis
    proof (cases "frame_step cfg st e s")
      case (Continue s')
      let ?t = "py_int ((t_loop e - st) * 1000)"
      from frame_step_Continue [OF Continue] have ts: "timestamps s' = timestamps s @ [?t]"
        by blast
      have a: "sorted (map t_loop es)" using Cons.prems(1) by simp
      have b: "sorted (timestamps (signalled (signal_seen e) s'))"
        using Cons.prems(2,3) by (simp add: ts sorted_append)
      have "?t \<le> py_int ((t_loop e' - st) * 1000)" if "e' \<in> set es" for e'
      proof -
        from that Cons.prems(1) have "t_loop e \<le> t_loop e'" by auto
        then show ?thesis by (intro py_int_mono) simp
      qed
      with Cons.prems(3) have c: "\<forall>t \<in> set (timestamps (signalled (signal_seen e) s')).
          \<forall>e' \<in> set es. t \<le> py_int ((t_loop e' - st) * 1000)"
        by (auto simp: ts)
      from Cons.IH [OF a b c] True Continue show ?thesis by simp
    next
      case (Break s')
      with frame_step_Break [OF Break] True Cons.prems(2) show ?thesis by simp
    next
      case (Throw x s')
      with frame_step_Throw [OF Throw] True Cons.prems(2) show ?thesis by simp
    qed
  qed
qed

lemma session_stamps_sorted:
  assumes "sorted (map t_loop (iters env))"
  shows "sorted (stamps (record_session cfg env r))"
proof -
  have loop: "sorted (timestamps (end_state (frame_loop cfg (t_start env) (iters env)
      (loop_init cfg env r evs))))" for evs
    using assms by (intro frame_loop_sorted) (simp_all add: loop_init_def)
  show ?thesis
  proof (cases "gate_fails env")
    case True
    then have "record_session cfg env r = backoff r env [TrackerInit]
      \<or> record_session cfg env r = backoff r env [TrackerInit, NextFrame, TrackerExit]"
      by (auto simp: gate_fails_def record_session_def split: option.splits sum.splits prod.splits)
    then show ?thesis by (auto simp: backoff_def)
  next
    case False
    then obtain frame hs b where g: "tracker_init env = None"
      "first_frame env = Inr (Some frame, hs, b)"
      by (rule gate_passes)
    obtain x evs where su: "session_setup cfg env = (x, evs)" by (cases "session_setup cfg env")
    show ?thesis
    proof (cases x)
      case (Some e)
      with su g show ?thesis by (simp add: record_session_def)
    next
      case None
      show ?thesis
      proof (cases "frame_loop cfg (t_start env) (iters env) (loop_init cfg env r evs)")
        case (Done s)
        with loop [of evs] have "sorted (timestamps s)" by simp
        with Done None su g show ?thesis
          by (simp add: record_session_def close_session_def Let_def split: option.splits)
      next
        case (Threw e s)
        with loop [of evs] have "sorted (timestamps s)" by simp
        with Threw None su g show ?thesis by (simp add: record_session_def)
      next
        case (Starved s)
        with loop [of evs] have "sorted (timestamps s)" by simp
        with Starved None su g show ?thesis by (simp add: record_session_def)
      qed
    qed
  qed
qed

lemma setup_no_images: "image_calls (snd (session_setup cfg env)) = []"
  by (simp add: session_setup_def Let_def write_doc_def split: option.splits)

lemma blocks_image_paths:
  "map fst (image_calls (blocks cfg rows)) = map (image_file cfg) [0..<length rows]"
proof -
  have "map fst (image_calls (blocks cfg rows))
      = map (\<lambda>x. image_file cfg (fst x)) (enumerate 0 rows)"
    by (simp add: blocks_image_calls split_def)
  also have "\<dots> = map (image_file cfg) [0..<length rows]"
    by (intro nth_equalityI) (simp_all add: nth_enumerate_eq)
  finally show ?thesis .
qed

lemma session_image_paths:
  "\<exists>m. (m = n_frames (record_session cfg env r)
        \<or> m = Suc (n_frames (record_session cfg env r))
          \<and> (\<exists>x. status (record_session cfg env r) = Raised x))
     \<and> map fst (image_calls (events (record_session cfg env r)))
         = map (image_file cfg) [0..<m]"
proof (cases "gate_fails env")
  case True
  then have "record_session cfg env r = backoff r env [TrackerInit]
      \<or> record_session cfg env r = backoff r env [TrackerInit, NextFrame, TrackerExit]"
    by (auto simp: gate_fails_def record_session_def split: option.splits sum.splits prod.splits)
  then show ?thesis by (auto simp: backoff_def)
next
  case False
  then obtain frame hs b where g: "tracker_init env = None"
    "first_frame env = Inr (Some frame, hs, b)"
    by (rule gate_passes)
  obtain x evs where su: "session_setup cfg env = (x, evs)" by (cases "session_setup cfg env")
  from setup_no_images [of cfg env] su have noimg: "image_calls evs = []" by simp
  show ?thesis
  proof (cases x)
    case (Some e)
    with su g noimg show ?thesis by (simp add: record_session_def)
  next
    case None
    with su have su': "session_setup cfg env = (None, evs)" by simp
    let ?out = "record_session cfg env r"
    from active_shape [OF g su', of r] obtain rows tail closing where
      ev: "events ?out = [TrackerInit, NextFrame] @ evs @ blocks cfg rows @ tail @ closing"
      and len: "length rows = n_frames ?out"
      and tl: "tail = [] \<or> tail = [NextFrame]
        \<or> ((\<exists>x. status ?out = Raised x)
            \<and> (\<exists>img ok. tail = [NextFrame, Imwrite (image_file cfg (n_frames ?out)) img ok]))"
      and cl: "closing = [] \<or> closing = [TrackerExit]
        \<or> closing = [TrackerExit] @ write_doc (metadata_file cfg)
            (Dump (session_metadata (now_iso env) (n_frames ?out) (stamps ?out)))"
      by blast
    from cl have c: "image_calls closing = []" by (auto simp: write_doc_def)
    have base: "map fst (image_calls (events ?out))
        = map (image_file cfg) [0..<n_frames ?out] @ map fst (image_calls tail)"
      using blocks_image_paths [of cfg rows] by (simp add: ev noimg c len)
    from tl consider "image_calls tail = []"
      | "(\<exists>x. status ?out = Raised x)"
        "map fst (image_calls tail) = [image_file cfg (n_frames ?out)]"
      by auto
    then show ?thesis
    proof cases
      case 1
      with base show ?thesis by auto
    next
      case 2
      with base have "map fst (image_calls (events ?out))
          = map (image_file cfg) [0..<Suc (n_frames ?out)]"
        by simp
      with 2(1) show ?thesis by blast
    qed
  qed
qed

lemma session_record_fields:
  "map (jget ''frame_idx'') (frame_records cfg (events (record_session cfg env r)))
     = map (\<lambda>i. Some (JInt (int i))) [0..<n_frames (record_session cfg env r)]
   \<and> map (jget ''timestamp_ms'') (frame_records cfg (events (record_session cfg env r)))
     = map (\<lambda>t. Some (JInt t)) (stamps (record_session cfg env r))"
proof -
  let ?out = "record_session cfg env r"
  from pose_stream_written [of cfg env r] show ?thesis
  proof (rule disjE)
    assume "written (poses_file cfg) (events ?out) = [] \<and> n_frames ?out = 0 \<and> stamps ?out = []
      \<and> (gate_fails env \<or> fst (session_setup cfg env) \<noteq> None)"
    then show ?thesis by (simp add: frame_records_def)
  next
    assume "\<exists>recs. written (poses_file cfg) (events ?out)
          = Line (header (resolve_intrinsics env)) # map Line recs
        \<and> length recs = n_frames ?out \<and> length (stamps ?out) = n_frames ?out
        \<and> (\<forall>i < length recs. \<exists>hj bj. recs ! i = frame_pose i (stamps ?out ! i) hj bj)
        \<and> \<not> gate_fails env \<and> fst (session_setup cfg env) = None"
    then obtain recs where w: "written (poses_file cfg) (events ?out)
          = Line (header (resolve_intrinsics env)) # map Line recs"
      and len: "length recs = n_frames ?out" "length (stamps ?out) = n_frames ?out"
      and fr: "\<forall>i < length recs. \<exists>hj bj. recs ! i = frame_pose i (stamps ?out ! i) hj bj"
      by blast
    from w have recs: "frame_records cfg (events ?out) = recs"
      by (simp add: frame_records_def)
    have "map (jget ''frame_idx'') recs = map (\<lambda>i. Some (JInt (int i))) [0..<n_frames ?out]"
      using fr len by (intro nth_equalityI) auto
    moreover have "map (jget ''timestamp_ms'') recs = map (\<lambda>t. Some (JInt t)) (stamps ?out)"
      using fr len by (intro nth_equalityI) auto
    ultimately show ?thesis by (simp add: recs)
  qed
qed



lemma sample_clock: "sorted (map t_loop (iters sample_session))"
  by (simp add: sample_session_def sample_env_def sample_pass_def)

lemma sample_frame_records:
  "frame_records sample_config (events (record_session sample_config sample_session True))
     = [frame_pose 0 1000 [] JNull,
        frame_pose 1 2000
          [JObj [(''handedness'', JStr ''Right''), (''confidence'', JNum 0.9),
                 (''landmarks_2d'', JList []), (''landmarks_3d'', JList [])]] JNull]"
  by (simp add: frame_records_def sample_written)


section \<open>Session metadata\<close>

lemma setup_no_metadata:
  "filter (on_path (metadata_file cfg)) (snd (session_setup cfg env)) = []"
  by (simp add: session_setup_def Let_def write_doc_def split: option.splits)

text \<open>What a session that returned did after the set-up.\<close>

lemma returned_shape:
  assumes "status (record_session cfg env r) = Returned b"
  shows "(gate_fails env \<and> n_frames (record_session cfg env r) = 0
          \<and> filter touches_store (events (record_session cfg env r)) = [])
       \<or> (\<exists>rows tail closing.
            events (record_session cfg env r)
              = [TrackerInit, NextFrame] @ setup_events cfg (resolve_intrinsics env)
                  @ blocks cfg rows @ tail @ closing
          \<and> length rows = n_frames (record_session cfg env r)
          \<and> length (stamps (record_session cfg env r)) = n_frames (record_session cfg env r)
          \<and> (tail = [] \<or> tail = [NextFrame])
          \<and> (n_frames (record_session cfg env r) = 0 \<and> closing = [TrackerExit]
             \<or> 0 < n_frames (record_session cfg env r)
               \<and> closing = [TrackerExit] @ write_doc (metadata_file cfg)
                   (Dump (session_metadata (now_iso env) (n_frames (record_session cfg env r))
                      (stamps (record_session cfg env r))))))"
proof (cases "gate_fails env")
  case True
  then have "record_session cfg env r = backoff r env [TrackerInit]
      \<or> record_session cfg env r = backoff r env [TrackerInit, NextFrame, TrackerExit]"
    by (auto simp: gate_fails_def record_session_def split: option.splits sum.splits prod.splits)
  with True show ?thesis by (auto simp: backoff_def)
next
  case False
  then obtain frame hs bg where g: "tracker_init env = None"
    "first_frame env = Inr (Some frame, hs, bg)"
    by (rule gate_passes)
  obtain x evs where su: "session_setup cfg env = (x, evs)" by (cases "session_setup cfg env")
  show ?thesis
  proof (cases x)
    case (Some e)
    with su g assms show ?thesis by (simp add: record_session_def)
  next
    case None
    with su have su': "session_setup cfg env = (None, evs)" by simp
    let ?out = "record_session cfg env r"
    from active_shape [OF g su', of r] assms obtain rows tail closing where
      "events ?out = [TrackerInit, NextFrame] @ evs @ blocks cfg rows @ tail @ closing"
      "length rows = n_frames ?out" "length (stamps ?out) = n_frames ?out"
      "tail = [] \<or> tail = [NextFrame]"
      "n_frames ?out = 0 \<and> closing = [TrackerExit]
         \<or> 0 < n_frames ?out
           \<and> closing = [TrackerExit] @ write_doc (metadata_file cfg)
               (Dump (session_metadata (now_iso env) (n_frames ?out) (stamps ?out)))"
      by auto
    then show ?thesis
      using session_setup_None' [OF su'] by (intro disjI2) blast
  qed
qed

lemma setup_events_projections [simp]:
  "filter (on_path (metadata_file cfg)) (setup_events cfg i) = []"
  "image_calls (setup_events cfg i) = []"
  "written (poses_file cfg) (setup_events cfg i) = [Line (header i)]"
  by (simp_all add: setup_events_def write_doc_def)

lemma returned_without_frames:
  assumes "status (record_session cfg env r) = Returned b" "n_frames (record_session cfg env r) = 0"
  shows "filter (on_path (metadata_file cfg)) (events (record_session cfg env r)) = []
       \<and> image_calls (events (record_session cfg env r)) = []
       \<and> frame_records cfg (events (record_session cfg env r)) = []"
proof -
  let ?out = "record_session cfg env r"
  from returned_shape [OF assms(1)] show ?thesis
  proof (rule disjE)
    assume a: "gate_fails env \<and> n_frames ?out = 0 \<and> filter touches_store (events ?out) = []"
    then have "record_session cfg env r = backoff r env [TrackerInit]
      \<or> record_session cfg env r = backoff r env [TrackerInit, NextFrame, TrackerExit]"
      by (auto simp: gate_fails_def record_session_def split: option.splits sum.splits prod.splits)
    then show ?thesis by (auto simp: backoff_def frame_records_def)
  next
    assume "\<exists>rows tail closing.
            events ?out = [TrackerInit, NextFrame] @ setup_events cfg (resolve_intrinsics env)
                  @ blocks cfg rows @ tail @ closing
          \<and> length rows = n_frames ?out \<and> length (stamps ?out) = n_frames ?out
          \<and> (tail = [] \<or> tail = [NextFrame])
          \<and> (n_frames ?out = 0 \<and> closing = [TrackerExit]
             \<or> 0 < n_frames ?out
               \<and> closing = [TrackerExit] @ write_doc (metadata_file cfg)
                   (Dump (session_metadata (now_iso env) (n_frames ?out) (stamps ?out))))"
    with assms(2) obtain tail where
      "events ?out = [TrackerInit, NextFrame] @ setup_events cfg (resolve_intrinsics env)
          @ tail @ [TrackerExit]" "tail = [] \<or> tail = [NextFrame]"
      by auto
    then show ?thesis by (auto simp: frame_records_def)
  qed
qed

lemma returned_with_frames:
  assumes "status (record_session cfg env r) = Returned b" "0 < n_frames (record_session cfg env r)"
  shows "files (replay f (events (record_session cfg env r))) (metadata_file cfg)
           = Some [Dump (session_metadata (now_iso env) (n_frames (record_session cfg env r))
                     (stamps (record_session cfg env r)))]
       \<and> length (stamps (record_session cfg env r)) = n_frames (record_session cfg env r)"
proof -
  let ?out = "record_session cfg env r"
  let ?m = "metadata_file cfg"
  let ?md = "Dump (session_metadata (now_iso env) (n_frames ?out) (stamps ?out))"
  from returned_shape [OF assms(1)] assms(2) obtain rows tail where
    ev: "events ?out = [TrackerInit, NextFrame] @ setup_events cfg (resolve_intrinsics env)
          @ blocks cfg rows @ tail @ [TrackerExit] @ write_doc ?m ?md"
    and len: "length (stamps ?out) = n_frames ?out"
    and tl: "tail = [] \<or> tail = [NextFrame]"
    by auto
  from tl have "filter (on_path ?m) (events ?out) = write_doc ?m ?md"
    by (auto simp: ev blocks_metadata_events write_doc_def)
  then have "files (replay f (events ?out)) ?m = files (replay f (write_doc ?m ?md)) ?m"
    using files_replay_filter [of f "events ?out" ?m] by simp
  also have "\<dots> = Some [?md]"
    by (simp add: write_doc_def contents_def)
  finally show ?thesis using len by simp
qed

lemma metadata_fields:
  "jget ''recording_date'' (session_metadata now n ts) = Some (JStr now)"
  "jget ''frame_count'' (session_metadata now n ts) = Some (JInt (int n))"
  "ts \<noteq> [] \<Longrightarrow> jget ''duration_seconds'' (session_metadata now n ts)
      = Some (JNum (real_of_int (last ts) / 1000))"
  "ts \<noteq> [] \<Longrightarrow> jget ''fps'' (session_metadata now n ts)
      = Some (if 0 < last ts then JNum (real n / (real_of_int (last ts) / 1000)) else JInt 0)"
  by (simp_all add: session_metadata_def jget_def actual_duration_def)

lemma last_record_stamp:
  assumes "0 < n_frames (record_session cfg env r)"
  shows "length (frame_records cfg (events (record_session cfg env r)))
           = n_frames (record_session cfg env r)
       \<and> jget ''timestamp_ms'' (last (frame_records cfg (events (record_session cfg env r))))
           = Some (JInt (last (stamps (record_session cfg env r))))"
proof -
  let ?out = "record_session cfg env r"
  let ?recs = "frame_records cfg (events ?out)"
  from session_record_fields [of cfg env r] have
    idx: "map (jget ''frame_idx'') ?recs = map (\<lambda>i. Some (JInt (int i))) [0..<n_frames ?out]"
    and ts: "map (jget ''timestamp_ms'') ?recs = map (\<lambda>t. Some (JInt t)) (stamps ?out)"
    by simp_all
  from idx have len: "length ?recs = n_frames ?out"
    using length_map [of "jget ''frame_idx''" ?recs] by simp
  from ts have len': "length (stamps ?out) = length ?recs"
    using length_map [of "jget ''timestamp_ms''" ?recs] by simp
  from len assms have ne: "?recs \<noteq> []" by auto
  with len' have ne': "stamps ?out \<noteq> []" by auto
  have "jget ''timestamp_ms'' (last ?recs) = last (map (jget ''timestamp_ms'') ?recs)"
    using ne by (simp add: last_map)
  also have "\<dots> = Some (JInt (last (stamps ?out)))"
    using ne' by (simp add: ts last_map)
  finally show ?thesis using len by simp
qed

text \<open>
  C9. In a session that returns with at least one frame, the \<open>fps\<close> written to
  \<open>metadata.json\<close> is the frame count divided by the duration exactly when the last
  record's \<open>timestamp_ms\<close> is positive, and the integer 0 otherwise; in particular a
  last time stamp of 0 gives \<open>duration_seconds\<close> 0 and \<open>fps\<close> 0, with no division.
\<close>

theorem fps_guarded_by_duration:
  "status (record_session cfg env r) = Returned b \<and> 0 < n_frames (record_session cfg env r) \<longrightarrow>
     (\<exists>md. files (replay f (events (record_session cfg env r))) (metadata_file cfg)
             = Some [Dump md]
        \<and> jget ''fps'' md =
            Some (if 0 < last (stamps (record_session cfg env r))
                  then JNum (real (n_frames (record_session cfg env r))
                             / (real_of_int (last (stamps (record_session cfg env r))) / 1000))
                  else JInt 0)
        \<and> (last (stamps (record_session cfg env r)) = 0 \<longrightarrow>
              jget ''fps'' md = Some (JInt 0) \<and> jget ''duration_seconds'' md = Some (JNum 0)))
   \<and> jget ''timestamp_ms'' (last (frame_records cfg (events (record_session cfg env r))))
       = Some (JInt (last (stamps (record_session cfg env r))))"
proof
  assume a: "status (record_session cfg env r) = Returned b \<and> 0 < n_frames (record_session cfg env r)"
  let ?out = "record_session cfg env r"
  let ?md = "session_metadata (now_iso env) (n_frames ?out) (stamps ?out)"
  from a have p: "files (replay f (events ?out)) (metadata_file cfg) = Some [Dump ?md]
       \<and> length (stamps ?out) = n_frames ?out"
    by (intro returned_with_frames) simp_all
  with a have ne: "stamps ?out \<noteq> []" by auto
  have "jget ''fps'' ?md =
            Some (if 0 < last (stamps ?out)
                  then JNum (real (n_frames ?out) / (real_of_int (last (stamps ?out)) / 1000))
                  else JInt 0)"
    using ne by (rule metadata_fields(4))
  moreover have "last (stamps ?out) = 0 \<longrightarrow>
      jget ''fps'' ?md = Some (JInt 0) \<and> jget ''duration_seconds'' ?md = Some (JNum 0)"
    using ne by (simp add: metadata_fields)
  ultimately have "\<exists>md. files (replay f (events ?out)) (metadata_file cfg) = Some [Dump md]
        \<and> jget ''fps'' md =
            Some (if 0 < last (stamps ?out)
                  then JNum (real (n_frames ?out) / (real_of_int (last (stamps ?out)) / 1000))
                  else JInt 0)
        \<and> (last (stamps ?out) = 0 \<longrightarrow>
              jget ''fps'' md = Some (JInt 0) \<and> jget ''duration_seconds'' md = Some (JNum 0))"
    using p by blast
  moreover from a last_record_stamp [of cfg env r]
  have "jget ''timestamp_ms'' (last (frame_records cfg (events ?out)))
       = Some (JInt (last (stamps ?out)))"
    by simp
  ultimately show "(\<exists>md. files (replay f (events ?out)) (metadata_file cfg) = Some [Dump md]
        \<and> jget ''fps'' md =
            Some (if 0 < last (stamps ?out)
                  then JNum (real (n_frames ?out) / (real_of_int (last (stamps ?out)) / 1000))
                  else JInt 0)
        \<and> (last (stamps ?out) = 0 \<longrightarrow>
              jget ''fps'' md = Some (JInt 0) \<and> jget ''duration_seconds'' md = Some (JNum 0)))
   \<and> jget ''timestamp_ms'' (last (frame_records cfg (events ?out)))
       = Some (JInt (last (stamps ?out)))"
    by blast
qed

lemma sample_instant_run:
  "record_session sample_config sample_instant True =
     \<lparr>status = Returned True,
      events = [TrackerInit, NextFrame]
        @ setup_events sample_config (default_intrinsics (1920, 1080))
        @ frame_events sample_config 0 [1] True (frame_pose 0 0 [] JNull)
        @ [NextFrame, TrackerExit]
        @ write_doc (metadata_file sample_config)
            (Dump (session_metadata ''2024-01-01T12:00:00'' 1 [0])),
      run_flag = True, n_frames = 1, stamps = [0]\<rparr>"
  by (simp add: sample_instant_def sample_env_def sample_pass_def record_session_def
      session_setup_def setup_events_def resolve_intrinsics_def loop_init_def
      frame_step_def disk_check_def persist_frame_def body_data_def bag_body_def
      close_session_def frame_events_def Let_def sample_config_def signalled_def py_int_def)

theorem fps_guarded_by_duration_witness:
  "status (record_session sample_config sample_instant True) = Returned True
   \<and> 0 < n_frames (record_session sample_config sample_instant True)
   \<and> last (stamps (record_session sample_config sample_instant True)) = 0
   \<and> files (replay \<lparr>dirs = {}, files = Map.empty\<rparr>
         (events (record_session sample_config sample_instant True))) (metadata_file sample_config)
       = Some [Dump (JObj [(''recording_date'', JStr ''2024-01-01T12:00:00''),
                           (''duration_seconds'', JNum 0),
                           (''frame_count'', JInt 1),
                           (''fps'', JInt 0)])]"
  using fps_guarded_by_duration [of sample_config sample_instant True True
      "\<lparr>dirs = {}, files = Map.empty\<rparr>"]
  by (simp add: sample_instant_run)
    (simp add: setup_events_def frame_events_def write_doc_def append_line_def contents_def
      session_metadata_def actual_duration_def metadata_file_def poses_file_def
      camera_info_file_def image_file_def rgb_dir_def)

section \<open>The verification frame is not persisted\<close>

lemma frame_loop_first:
  assumes "frame_count s < frame_count (end_state (frame_loop cfg st envs s))"
  shows "\<exists>e es s1. envs = e # es \<and> running s \<and> frame_step cfg st e s = Continue s1
           \<and> frame_loop cfg st envs s = frame_loop cfg st es (signalled (signal_seen e) s1)"
proof (cases envs)
  case Nil
  with assms show ?thesis by (simp split: if_splits)
next
  case (Cons e es)
  show ?thesis
  proof (cases "running s")
    case False
    with assms Cons show ?thesis by simp
  next
    case True
    show ?thesis
    proof (cases "frame_step cfg st e s")
      case (Continue s1)
      with True Cons show ?thesis by simp
    next
      case (Break s')
      with frame_step_Break [OF Break] assms True Cons show ?thesis by simp
    next
      case (Throw x s')
      with frame_step_Throw [OF Throw] assms True Cons show ?thesis by simp
    qed
  qed
qed

lemma frame_loop_trace_extends:
  "\<exists>ext. trace (end_state (frame_loop cfg st envs s)) = trace s @ ext"
proof (rule frame_loop_rule [where I = "\<lambda>s'. \<exists>ext. trace s' = trace s @ ext"
      and Q = "\<lambda>ex. \<exists>ext. trace (end_state ex) = trace s @ ext"])
  show "\<exists>ext. trace s = trace s @ ext" by simp
next
  fix e s0 s'
  assume "\<exists>ext. trace s0 = trace s @ ext" "frame_step cfg st e s0 = Continue s'"
  with frame_step_Continue [of cfg st e s0 s']
  show "\<exists>ext. trace (signalled (signal_seen e) s') = trace s @ ext" by auto
next
  fix e s0 s'
  assume "\<exists>ext. trace s0 = trace s @ ext" "frame_step cfg st e s0 = Break s'"
  with frame_step_Break [of cfg st e s0 s']
  show "\<exists>ext. trace (end_state (Done (signalled (signal_seen e) s'))) = trace s @ ext" by auto
next
  fix e s0 s' x
  assume "\<exists>ext. trace s0 = trace s @ ext" "frame_step cfg st e s0 = Throw x s'"
  with frame_step_Throw [of cfg st e s0 x s']
  show "\<exists>ext. trace (end_state (Threw x (signalled (signal_seen e) s'))) = trace s @ ext" by auto
qed auto

lemma active_outcome:
  assumes "tracker_init env = None" "first_frame env = Inr (Some frame, hs, bg)"
    "session_setup cfg env = (None, evs)"
  shows "\<exists>closing.
      events (record_session cfg env r)
        = trace (end_state (frame_loop cfg (t_start env) (iters env) (loop_init cfg env r evs)))
            @ closing
    \<and> n_frames (record_session cfg env r)
        = frame_count (end_state (frame_loop cfg (t_start env) (iters env) (loop_init cfg env r evs)))"
proof (cases "frame_loop cfg (t_start env) (iters env) (loop_init cfg env r evs)")
  case (Done s)
  with assms show ?thesis
    by (simp add: record_session_def close_session_def Let_def split: option.splits)
next
  case (Threw x s)
  with assms show ?thesis by (simp add: record_session_def)
next
  case (Starved s)
  with assms show ?thesis by (simp add: record_session_def)
qed

lemma first_record_from_loop:
  assumes "0 < n_frames (record_session cfg env r)"
  shows "\<exists>e es frame hs bg hj bj ok rest.
           iters env = e # es
         \<and> next_frame e = Inr (Some frame, hs, bg)
         \<and> hands_data hs = Inr hj \<and> body_data bg = Inr bj \<and> imwrite e = Inr ok
         \<and> events (record_session cfg env r)
             = [TrackerInit, NextFrame] @ setup_events cfg (resolve_intrinsics env)
                 @ frame_events cfg 0 frame ok
                     (frame_pose 0 (py_int ((t_loop e - t_start env) * 1000)) hj bj)
                 @ rest"
proof -
  have ng: "\<not> gate_fails env"
  proof
    assume "gate_fails env"
    then have "record_session cfg env r = backoff r env [TrackerInit]
      \<or> record_session cfg env r = backoff r env [TrackerInit, NextFrame, TrackerExit]"
      by (auto simp: gate_fails_def record_session_def split: option.splits sum.splits prod.splits)
    with assms show False by (auto simp: backoff_def)
  qed
  then obtain vframe vhs vbg where g: "tracker_init env = None"
    "first_frame env = Inr (Some vframe, vhs, vbg)"
    by (rule gate_passes)
  obtain x evs where su: "session_setup cfg env = (x, evs)" by (cases "session_setup cfg env")
  have "x = None"
  proof (cases x)
    case (Some e)
    with su g assms show ?thesis by (simp add: record_session_def)
  qed simp
  with su have su': "session_setup cfg env = (None, evs)" by simp
  let ?s0 = "loop_init cfg env r evs"
  let ?ex = "frame_loop cfg (t_start env) (iters env) ?s0"
  from active_outcome [OF g su', of r] obtain closing where
    ev: "events (record_session cfg env r) = trace (end_state ?ex) @ closing"
    and n: "n_frames (record_session cfg env r) = frame_count (end_state ?ex)"
    by blast
  from assms n have "frame_count ?s0 < frame_count (end_state ?ex)"
    by (simp add: loop_init_def)
  from frame_loop_first [OF this] obtain e es s1 where
    it: "iters env = e # es" and st: "frame_step cfg (t_start env) e ?s0 = Continue s1"
    and rest: "?ex = frame_loop cfg (t_start env) es (signalled (signal_seen e) s1)"
    by blast
  from frame_step_Continue [OF st] obtain img hs bg hj bj ok where
    c: "next_frame e = Inr (Some img, hs, bg)" "hands_data hs = Inr hj" "body_data bg = Inr bj"
      "imwrite e = Inr ok"
    and tr: "trace s1 = trace ?s0 @ frame_events cfg (frame_count ?s0) img ok
              (frame_pose (frame_count ?s0) (py_int ((t_loop e - t_start env) * 1000)) hj bj)"
    by blast
  from frame_loop_trace_extends [of cfg "t_start env" es "signalled (signal_seen e) s1"] rest
  obtain ext where "trace (end_state ?ex) = trace s1 @ ext" by auto
  with ev tr have "events (record_session cfg env r)
      = [TrackerInit, NextFrame] @ setup_events cfg (resolve_intrinsics env)
          @ frame_events cfg 0 img ok
              (frame_pose 0 (py_int ((t_loop e - t_start env) * 1000)) hj bj)
          @ (ext @ closing)"
    by (simp add: loop_init_def session_setup_None' [OF su'])
  with it c show ?thesis by blast
qed

lemma first_frame_irrelevant_intrinsics [simp]:
  "resolve_intrinsics (env\<lparr>first_frame := v\<rparr>) = resolve_intrinsics env"
  by (simp add: resolve_intrinsics_def split: sum.split option.split)

lemma first_frame_irrelevant [simp]:
  "session_setup cfg (env\<lparr>first_frame := v\<rparr>) = session_setup cfg env"
  "loop_init cfg (env\<lparr>first_frame := v\<rparr>) r evs = loop_init cfg env r evs"
  "close_session cfg (env\<lparr>first_frame := v\<rparr>) s = close_session cfg env s"
  by (simp_all add: session_setup_def loop_init_def close_session_def
      Let_def split: option.split)

lemma record_session_verified:
  "record_session cfg (env\<lparr>first_frame := Inr (Some frame, hs, bg)\<rparr>) r
     = (case tracker_init env of
          Some x \<Rightarrow> backoff r env [TrackerInit]
        | None \<Rightarrow>
            (case session_setup cfg env of
               (Some x, evs) \<Rightarrow>
                 \<lparr>status = Raised x, events = [TrackerInit, NextFrame] @ evs,
                  run_flag = (r \<and> \<not> signal_setup env), n_frames = 0, stamps = []\<rparr>
             | (None, evs) \<Rightarrow>
                 (case frame_loop cfg (t_start env) (iters env) (loop_init cfg env r evs) of
                    Done s \<Rightarrow> close_session cfg env s
                  | Threw x s \<Rightarrow>
                      \<lparr>status = Raised x, events = trace s, run_flag = running s,
                       n_frames = frame_count s, stamps = timestamps s\<rparr>
                  | Starved s \<Rightarrow>
                      \<lparr>status = Unfinished, events = trace s, run_flag = running s,
                       n_frames = frame_count s, stamps = timestamps s\<rparr>)))"
proof (cases "tracker_init env")
  case None
  then show ?thesis
    by (cases "session_setup cfg env")
      (simp add: record_session_def split: option.split loop_exit.split)
next
  case (Some x)
  then show ?thesis by (simp add: record_session_def backoff_def)
qed

lemma verification_frame_unused:
  "record_session cfg (env\<lparr>first_frame := Inr (Some frame, hs, bg)\<rparr>) r
     = record_session cfg (env\<lparr>first_frame := Inr (Some frame', hs', bg')\<rparr>) r"
  by (simp only: record_session_verified)

text \<open>
  C10. The outcome of a session (its calls, every chunk written, its result) does not
  depend on the frame, the detections or the bag returned by the verification pull, as long
  as that frame is not \<open>None\<close>: the verification frame is discarded. Whenever a
  session persisted a frame, its script has a first pass of the loop whose pull succeeded,
  and the calls right after the set-up are the block of that pass: the image written to
  \<open>frame_000000\<close> is the frame pulled in that pass, and the record with index 0 is
  derived from that pass's detections and clock reading.
\<close>

theorem verification_frame_discarded:
  "record_session cfg (env\<lparr>first_frame := Inr (Some frame, hs, bg)\<rparr>) r
     = record_session cfg (env\<lparr>first_frame := Inr (Some frame', hs', bg')\<rparr>) r
   \<and> (0 < n_frames (record_session cfg env r) \<longrightarrow>
        (\<exists>e es pulled phs pbg hj bj ok rest.
           iters env = e # es
         \<and> next_frame e = Inr (Some pulled, phs, pbg)
         \<and> hands_data phs = Inr hj \<and> body_data pbg = Inr bj \<and> imwrite e = Inr ok
         \<and> events (record_session cfg env r)
             = [TrackerInit, NextFrame] @ setup_events cfg (resolve_intrinsics env)
                 @ frame_events cfg 0 pulled ok
                     (frame_pose 0 (py_int ((t_loop e - t_start env) * 1000)) hj bj)
                 @ rest
         \<and> hd (frame_records cfg (events (record_session cfg env r)))
             = frame_pose 0 (py_int ((t_loop e - t_start env) * 1000)) hj bj
         \<and> hd (image_calls (events (record_session cfg env r)))
             = (image_file cfg 0, pulled, ok)))"
proof (intro conjI impI)
  show "record_session cfg (env\<lparr>first_frame := Inr (Some frame, hs, bg)\<rparr>) r
     = record_session cfg (env\<lparr>first_frame := Inr (Some frame', hs', bg')\<rparr>) r"
    by (rule verification_frame_unused)
next
  assume "0 < n_frames (record_session cfg env r)"
  from first_record_from_loop [OF this] obtain e es pulled phs pbg hj bj ok rest where
    a: "iters env = e # es" "next_frame e = Inr (Some pulled, phs, pbg)"
      "hands_data phs = Inr hj" "body_data pbg = Inr bj" "imwrite e = Inr ok"
    and ev: "events (record_session cfg env r)
             = [TrackerInit, NextFrame] @ setup_events cfg (resolve_intrinsics env)
                 @ frame_events cfg 0 pulled ok
                     (frame_pose 0 (py_int ((t_loop e - t_start env) * 1000)) hj bj)
                 @ rest"
    by blast
  have "hd (frame_records cfg (events (record_session cfg env r)))
       = frame_pose 0 (py_int ((t_loop e - t_start env) * 1000)) hj bj"
    by (simp add: ev frame_records_def frame_events_def append_line_def)
  moreover have "hd (image_calls (events (record_session cfg env r))) = (image_file cfg 0, pulled, ok)"
    by (simp add: ev frame_events_def append_line_def)
  ultimately show "\<exists>e es pulled phs pbg hj bj ok rest.
           iters env = e # es
         \<and> next_frame e = Inr (Some pulled, phs, pbg)
         \<and> hands_data phs = Inr hj \<and> body_data pbg = Inr bj \<and> imwrite e = Inr ok
         \<and> events (record_session cfg env r)
             = [TrackerInit, NextFrame] @ setup_events cfg (resolve_intrinsics env)
                 @ frame_events cfg 0 pulled ok
                     (frame_pose 0 (py_int ((t_loop e - t_start env) * 1000)) hj bj)
                 @ rest
         \<and> hd (frame_records cfg (events (record_session cfg env r)))
             = frame_pose 0 (py_int ((t_loop e - t_start env) * 1000)) hj bj
         \<and> hd (image_calls (events (record_session cfg env r)))
             = (image_file cfg 0, pulled, ok)"
    using a ev by blast
qed

lemma sample_first_frame: "first_frame sample_session = Inr (Some [7], [], None)"
  by (simp add: sample_session_def sample_env_def)

theorem verification_frame_discarded_witness:
  "0 < n_frames (record_session sample_config sample_session True)
   \<and> first_frame sample_session = Inr (Some [7], [], None)
   \<and> hd (image_calls (events (record_session sample_config sample_session True)))
       = (image_file sample_config 0, [1], True)
   \<and> hd (frame_records sample_config (events (record_session sample_config sample_session True)))
       = frame_pose 0 1000 [] JNull"
  using verification_frame_discarded [where cfg = sample_config and env = sample_session
      and r = True and frame = "[7]" and hs = "[]" and bg = None
      and frame' = "[7]" and hs' = "[]" and bg' = None]
  by (simp add: sample_first_frame sample_frame_records) (simp add: sample_run frame_events_def
      setup_events_def write_doc_def)

section \<open>Which failures stay inside the session controller\<close>

lemma hands_data_labelled_all:
  "list_all labelled hs \<Longrightarrow> \<exists>ds. hands_data hs = Inr ds"
  using hands_data_pointwise [of hs] by (auto simp: list_all_iff)

lemma frame_step_no_throw:
  assumes "pass_contained e"
  shows "frame_step cfg st e s \<noteq> Throw x s'"
proof -
  from assms obtain u ok where d: "get_disk_usage_percent (disk_usage e) = Inr u"
    and i: "imwrite e = Inr ok" and a: "poses_append e = None"
    by (auto simp: pass_contained_def split: sum.splits)
  from d have dc: "disk_check cfg e s \<noteq> Throw x s''" for s''
    by (simp add: disk_check_def)
  show ?thesis
  proof (cases "next_frame e")
    case (Inl y)
    with dc show ?thesis
      by (auto simp: frame_step_def Let_def split: step.splits)
  next
    case (Inr p)
    obtain fr hs b where p: "p = (fr, hs, b)" by (cases p)
    show ?thesis
    proof (cases fr)
      case None
      with Inr p dc show ?thesis
        by (auto simp: frame_step_def Let_def split: step.splits)
    next
      case (Some frame)
      with Inr p assms obtain hj bj where "hands_data hs = Inr hj" "body_data b = Inr bj"
        using hands_data_labelled_all [of hs]
        by (auto simp: pass_contained_def split: sum.splits)
      with Some Inr p dc i a show ?thesis
        by (auto simp: frame_step_def persist_frame_def Let_def split: step.splits)
    qed
  qed
qed

lemma frame_loop_no_throw:
  "list_all pass_contained envs \<Longrightarrow> frame_loop cfg st envs s \<noteq> Threw x s'"
proof (induction envs arbitrary: s)
  case Nil
  then show ?case by simp
next
  case (Cons e es)
  then have e: "pass_contained e" and es: "list_all pass_contained es" by simp_all
  show ?case
  proof (cases "frame_step cfg st e s")
    case (Continue s1)
    with Cons.IH [OF es] show ?thesis by simp
  next
    case (Break s1)
    then show ?thesis by simp
  next
    case (Throw y s1)
    with frame_step_no_throw [OF e] show ?thesis by blast
  qed
qed

lemma frame_loop_not_starved:
  assumes "envs \<noteq> []"
    "\<And>frame hs b. next_frame (last envs) \<noteq> Inr (Some frame, hs, b)"
  shows "frame_loop cfg st envs s \<noteq> Starved s'"
  using assms
proof (induction envs arbitrary: s)
  case Nil
  then show ?case by simp
next
  case (Cons e es)
  show ?case
  proof (cases "frame_step cfg st e s")
    case (Continue s1)
    show ?thesis
    proof (cases "es = []")
      case True
      with Cons.prems(2) frame_step_Continue [OF Continue] show ?thesis by auto
    next
      case False
      with Cons.prems(2) have "\<And>frame hs b. next_frame (last es) \<noteq> Inr (Some frame, hs, b)"
        by simp
      from Cons.IH [OF False this] Continue show ?thesis by simp
    qed
  next
    case (Break s1)
    then show ?thesis by simp
  next
    case (Throw y s1)
    then show ?thesis by simp
  qed
qed

lemma contained_setup:
  "only_source_fails env \<Longrightarrow> fst (session_setup cfg env) = None"
  by (simp add: only_source_fails_def session_setup_def Let_def)

lemma contained_session:
  assumes "only_source_fails env"
  shows "(\<exists>b. status (record_session cfg env r) = Returned b
             \<and> b = run_flag (record_session cfg env r))
       \<or> (status (record_session cfg env r) = Unfinished \<and> \<not> source_stops env)"
proof (cases "gate_fails env")
  case True
  then have "record_session cfg env r = backoff r env [TrackerInit]
      \<or> record_session cfg env r = backoff r env [TrackerInit, NextFrame, TrackerExit]"
    by (auto simp: gate_fails_def record_session_def split: option.splits sum.splits prod.splits)
  then show ?thesis by (auto simp: backoff_def)
next
  case False
  then obtain frame hs bg where g: "tracker_init env = None"
    "first_frame env = Inr (Some frame, hs, bg)"
    by (rule gate_passes)
  from contained_setup [OF assms, of cfg] obtain evs where su: "session_setup cfg env = (None, evs)"
    by (cases "session_setup cfg env") simp
  from assms have passes: "list_all pass_contained (iters env)" and wm: "write_meta env = None"
    by (simp_all add: only_source_fails_def)
  show ?thesis
  proof (cases "frame_loop cfg (t_start env) (iters env) (loop_init cfg env r evs)")
    case (Done s)
    with g su wm show ?thesis
      by (simp add: record_session_def close_session_def Let_def)
  next
    case (Threw x s)
    with frame_loop_no_throw [OF passes] show ?thesis by blast
  next
    case (Starved s)
    have "\<not> source_stops env"
    proof
      assume "source_stops env"
      then have "iters env \<noteq> []"
        "\<And>frame hs b. next_frame (last (iters env)) \<noteq> Inr (Some frame, hs, b)"
        by (auto simp: source_stops_def split: list.splits sum.splits option.splits)
      from frame_loop_not_starved [OF this] Starved show False by blast
    qed
    with Starved g su show ?thesis by (simp add: record_session_def)
  qed
qed

text \<open>
  C4, as the code has it. Creating the directories, writing \<open>camera_info.json\<close>, the
  header, an image, a pose line or \<open>metadata.json\<close>, and sampling the disk are outside
  every \<open>try\<close>. On a store that refuses the output directory, and on one that refuses
  the second append, the exception leaves \<open>record_session\<close>.
\<close>

theorem persistence_failure_propagates:
  "status (record_session sample_config sample_readonly True) = Raised OSError
   \<and> status (record_session sample_config sample_disk_full True) = Raised OSError"
  by (simp add: sample_readonly_def sample_disk_full_def sample_session_def sample_env_def
      sample_pass_def record_session_def session_setup_def loop_init_def frame_step_def
      disk_check_def persist_frame_def body_data_def bag_body_def Let_def sample_config_def
      signalled_def)

text \<open>
  C4, amended. When no store operation and no disk sample fails and every detection can
  be turned into a record, no exception leaves \<open>record_session\<close>, whatever the pose
  source does on construction, on the verification pull, on a pull in the loop, on the
  calibration read and on release: the caller gets a boolean, the value of \<open>running\<close>
  at that moment. (The other possibility, a script that ends while the loop would go on,
  does not arise when the source stops eventually.)
\<close>

theorem source_failures_contained:
  "only_source_fails env \<longrightarrow>
     ((\<exists>b. status (record_session cfg env r) = Returned b
            \<and> b = run_flag (record_session cfg env r))
      \<or> (status (record_session cfg env r) = Unfinished \<and> \<not> source_stops env))
   \<and> (\<forall>x. status (record_session cfg env r) \<noteq> Raised x)"
proof
  assume a: "only_source_fails env"
  from contained_session [OF a, of cfg r]
  show "((\<exists>b. status (record_session cfg env r) = Returned b
            \<and> b = run_flag (record_session cfg env r))
      \<or> (status (record_session cfg env r) = Unfinished \<and> \<not> source_stops env))
   \<and> (\<forall>x. status (record_session cfg env r) \<noteq> Raised x)"
    by auto
qed

lemma sample_source_fault_ok:
  "only_source_fails sample_source_fault" "source_stops sample_source_fault"
  using disk_usage_defined [of 100 50 50]
  by (auto simp: only_source_fails_def source_stops_def pass_contained_def
      sample_source_fault_def sample_env_def sample_pass_def body_data_def bag_body_def)

theorem source_failures_contained_witness:
  "only_source_fails sample_source_fault \<and> source_stops sample_source_fault
   \<and> tracker_exit sample_source_fault = Some SourceError
   \<and> status (record_session sample_config sample_source_fault True) = Returned True"
  using source_failures_contained [of sample_source_fault sample_config True]
    sample_source_fault_ok
  by simp (simp add: sample_source_fault_def sample_env_def sample_pass_def record_session_def
      session_setup_def loop_init_def frame_step_def disk_check_def persist_frame_def
      body_data_def bag_body_def close_session_def Let_def sample_config_def signalled_def)

section \<open>Sessions without frames, sessions without metadata\<close>

lemma backoff_cases:
  assumes "gate_fails env"
  shows "record_session cfg env r = backoff r env [TrackerInit]
      \<or> record_session cfg env r = backoff r env [TrackerInit, NextFrame, TrackerExit]"
  using assms
  by (auto simp: gate_fails_def record_session_def split: option.splits sum.splits prod.splits)

text \<open>Every run: what was done on \<open>metadata.json\<close>.\<close>

lemma metadata_events:
  "filter (on_path (metadata_file cfg)) (events (record_session cfg env r)) = []
   \<or> ((\<exists>b. status (record_session cfg env r) = Returned b)
      \<and> 0 < n_frames (record_session cfg env r)
      \<and> filter (on_path (metadata_file cfg)) (events (record_session cfg env r))
          = write_doc (metadata_file cfg)
              (Dump (session_metadata (now_iso env) (n_frames (record_session cfg env r))
                 (stamps (record_session cfg env r)))))"
proof (cases "gate_fails env")
  case True
  from backoff_cases [OF this, of cfg r] show ?thesis by (auto simp: backoff_def)
next
  case False
  then obtain frame hs bg where g: "tracker_init env = None"
    "first_frame env = Inr (Some frame, hs, bg)"
    by (rule gate_passes)
  obtain x evs where su: "session_setup cfg env = (x, evs)" by (cases "session_setup cfg env")
  from setup_no_metadata [of cfg env] su
  have nometa: "filter (on_path (metadata_file cfg)) evs = []" by simp
  show ?thesis
  proof (cases x)
    case (Some e)
    with su g nometa show ?thesis by (simp add: record_session_def)
  next
    case None
    with su have su': "session_setup cfg env = (None, evs)" by simp
    let ?out = "record_session cfg env r"
    let ?m = "metadata_file cfg"
    let ?doc = "write_doc ?m (Dump (session_metadata (now_iso env) (n_frames ?out) (stamps ?out)))"
    from active_shape [OF g su', of r] obtain rows tail closing where
      ev: "events ?out = [TrackerInit, NextFrame] @ evs @ blocks cfg rows @ tail @ closing"
      and tl: "tail = [] \<or> tail = [NextFrame]
        \<or> (\<exists>img ok. tail = [NextFrame, Imwrite (image_file cfg (n_frames ?out)) img ok])"
      and cl: "closing = [] \<or> closing = [TrackerExit]
          \<or> closing = [TrackerExit] @ ?doc \<and> 0 < n_frames ?out \<and> (\<exists>b. status ?out = Returned b)"
      by blast
    from tl have t: "filter (on_path ?m) tail = []" by auto
    have base: "filter (on_path ?m) (events ?out) = filter (on_path ?m) closing"
      by (simp add: ev nometa t blocks_metadata_events)
    from cl consider "filter (on_path ?m) closing = []"
      | "closing = [TrackerExit] @ ?doc" "0 < n_frames ?out" "\<exists>b. status ?out = Returned b"
      by auto
    then show ?thesis
    proof cases
      case 1
      with base show ?thesis by simp
    next
      case 2
      from 2(1) have "filter (on_path ?m) closing = ?doc" by (simp add: write_doc_def)
      with base 2(2,3) show ?thesis by simp
    qed
  qed
qed

lemma no_metadata_without_return:
  assumes "n_frames (record_session cfg env r) = 0 \<or> (\<exists>x. status (record_session cfg env r) = Raised x)"
  shows "filter (on_path (metadata_file cfg)) (events (record_session cfg env r)) = []
       \<and> files (replay f (events (record_session cfg env r))) (metadata_file cfg)
           = files f (metadata_file cfg)"
proof -
  from metadata_events [of cfg env r] assms
  have "filter (on_path (metadata_file cfg)) (events (record_session cfg env r)) = []"
    by auto
  then show ?thesis by (simp add: files_replay_untouched)
qed

lemma no_records_without_frames:
  assumes "n_frames (record_session cfg env r) = 0"
  shows "frame_records cfg (events (record_session cfg env r)) = []"
  using session_record_fields [of cfg env r] assms by simp

lemma no_images_without_frames:
  assumes "n_frames (record_session cfg env r) = 0" "\<forall>x. status (record_session cfg env r) \<noteq> Raised x"
  shows "image_calls (events (record_session cfg env r)) = []"
  using session_image_paths [of cfg env r] assms by auto

lemma sample_disk_full_run:
  "record_session sample_config sample_disk_full True =
     \<lparr>status = Raised OSError,
      events = [TrackerInit, NextFrame]
        @ setup_events sample_config (default_intrinsics (1920, 1080))
        @ frame_events sample_config 0 [1] True (frame_pose 0 1000 [] JNull)
        @ [NextFrame, Imwrite (image_file sample_config 1) [2] True],
      run_flag = True, n_frames = 1, stamps = [1000]\<rparr>"
  by (simp add: sample_disk_full_def sample_env_def sample_pass_def record_session_def
      session_setup_def setup_events_def resolve_intrinsics_def loop_init_def
      frame_step_def disk_check_def persist_frame_def body_data_def bag_body_def
      frame_events_def Let_def sample_config_def signalled_def)

lemma sample_first_append_run:
  "record_session sample_config sample_first_append_fails True =
     \<lparr>status = Raised OSError,
      events = [TrackerInit, NextFrame]
        @ setup_events sample_config (default_intrinsics (1920, 1080))
        @ [NextFrame, Imwrite (image_file sample_config 0) [1] True],
      run_flag = True, n_frames = 0, stamps = []\<rparr>"
  by (simp add: sample_first_append_fails_def sample_env_def sample_pass_def record_session_def
      session_setup_def setup_events_def resolve_intrinsics_def loop_init_def
      frame_step_def disk_check_def persist_frame_def body_data_def bag_body_def
      Let_def sample_config_def signalled_def)



lemma sample_empty_run:
  "record_session sample_config sample_empty True =
     \<lparr>status = Returned True,
      events = [TrackerInit, NextFrame]
        @ setup_events sample_config (default_intrinsics (1920, 1080))
        @ [NextFrame, TrackerExit],
      run_flag = True, n_frames = 0, stamps = []\<rparr>"
  by (simp add: sample_empty_def sample_env_def sample_pass_def record_session_def
      session_setup_def setup_events_def resolve_intrinsics_def loop_init_def
      frame_step_def disk_check_def close_session_def Let_def sample_config_def signalled_def)


section \<open>Disk exhaustion stops the session and the program\<close>

lemma frame_loop_Starved_running: "frame_loop cfg st envs s0 = Starved s \<Longrightarrow> running s"
proof (induction envs arbitrary: s0)
  case Nil
  then show ?case by (simp split: if_splits)
next
  case (Cons e es)
  then show ?case
    by (cases "frame_step cfg st e s0") (auto split: if_splits)
qed

lemma frame_loop_append:
  "frame_loop cfg st pre s0 = Starved s \<Longrightarrow>
     frame_loop cfg st (pre @ rest) s0 = frame_loop cfg st rest s"
proof (induction pre arbitrary: s0)
  case Nil
  then have "running s0" "s = s0" by (simp_all split: if_splits)
  then show ?case by (cases rest) simp_all
next
  case (Cons e es)
  then show ?case
    by (cases "frame_step cfg st e s0") (auto split: if_splits)
qed

lemma disk_break:
  assumes "\<not> max_duration cfg < t_loop e - st" "30 < t_check e - last_status_time s"
    "get_disk_usage_percent (disk_usage e) = Inr usage" "max_disk_usage cfg < usage"
  shows "frame_step cfg st e s = Break (s\<lparr>running := False\<rparr>)"
  using assms by (simp add: frame_step_def disk_check_def)

lemma disk_exit:
  assumes "frame_loop cfg st pre s0 = Starved s"
    "\<not> max_duration cfg < t_loop e - st" "30 < t_check e - last_status_time s"
    "get_disk_usage_percent (disk_usage e) = Inr usage" "max_disk_usage cfg < usage"
  shows "frame_loop cfg st (pre @ e # post) s0 = Done (s\<lparr>running := False\<rparr>)"
proof -
  from assms(1) have "running s" by (rule frame_loop_Starved_running)
  moreover from assms(2-5) have "frame_step cfg st e s = Break (s\<lparr>running := False\<rparr>)"
    by (rule disk_break)
  ultimately have "frame_loop cfg st (e # post) s = Done (s\<lparr>running := False\<rparr>)"
    by (simp add: signalled_def)
  with frame_loop_append [OF assms(1), of "e # post"] show ?thesis by simp
qed

lemma starved_stamps:
  assumes "frame_loop cfg st pre (loop_init cfg env r evs) = Starved s"
  shows "length (timestamps s) = frame_count s"
proof -
  have "shaped cfg ([TrackerInit, NextFrame] @ evs) (loop_init cfg env r evs) [] []"
    by (simp add: shaped_def loop_init_def blocks_def)
  from frame_loop_shape [OF this, of st pre] assms show ?thesis
    by (auto simp: shaped_def)
qed

lemma disk_exit_session:
  assumes "\<not> gate_fails env" "session_setup cfg env = (None, evs)"
    and "iters env = pre @ e # post"
    and "frame_loop cfg (t_start env) pre (loop_init cfg env True evs) = Starved s"
    and "\<not> max_duration cfg < t_loop e - t_start env"
    and "30 < t_check e - last_status_time s"
    and "get_disk_usage_percent (disk_usage e) = Inr usage"
    and "max_disk_usage cfg < usage"
  shows "frame_loop cfg (t_start env) (iters env) (loop_init cfg env True evs)
           = Done (s\<lparr>running := False\<rparr>)"
    and "record_session cfg env True = close_session cfg env (s\<lparr>running := False\<rparr>)"
proof -
  from assms(1) obtain frame hs bg where g: "tracker_init env = None"
    "first_frame env = Inr (Some frame, hs, bg)"
    by (rule gate_passes)
  show loop: "frame_loop cfg (t_start env) (iters env) (loop_init cfg env True evs)
      = Done (s\<lparr>running := False\<rparr>)"
    unfolding assms(3) using assms(4-8) by (rule disk_exit)
  show "record_session cfg env True = close_session cfg env (s\<lparr>running := False\<rparr>)"
    using g assms(2) loop by (simp add: record_session_def)
qed

lemma main_loop_first:
  assumes "output_dir cfg = recordings_dir @ [''session_'' @ stamp]"
  shows "main_loop recordings_dir (max_duration cfg) (max_disk_usage cfg)
            ((stamp, env, sg) # later) True n evs0
         = (case status (record_session cfg env True) of
              Raised x \<Rightarrow> Crashed x (Suc n) (evs0 @ events (record_session cfg env True))
            | Unfinished \<Rightarrow> Ongoing (Suc n) (evs0 @ events (record_session cfg env True))
            | Returned should_continue \<Rightarrow>
                if \<not> should_continue then Stopped (Suc n) (evs0 @ events (record_session cfg env True))
                else main_loop recordings_dir (max_duration cfg) (max_disk_usage cfg) later
                       (run_flag (record_session cfg env True) \<and> \<not> sg) (Suc n)
                       (evs0 @ events (record_session cfg env True) @ [Sleep 2]))"
proof -
  have cfg: "\<lparr>output_dir = recordings_dir @ [''session_'' @ stamp],
       max_duration = max_duration cfg, max_disk_usage = max_disk_usage cfg\<rparr> = cfg"
    using assms by (cases cfg) simp
  show ?thesis
    apply (subst main_loop.simps(2))
    apply (simp only: cfg)
    apply (simp add: Let_def)
    done
qed

lemma sample_pre_loop:
  "frame_loop sample_config 100
     [sample_pass 101 (Inr (Some [1], [], None)), sample_pass 102 (Inr (Some [2], [], None))]
     (loop_init sample_config sample_exhausted True
        (setup_events sample_config (default_intrinsics (1920, 1080))))
   = Starved sample_two_frames"
  by (simp add: sample_two_frames_def sample_exhausted_def sample_env_def sample_pass_def
      loop_init_def frame_step_def disk_check_def persist_frame_def body_data_def bag_body_def
      frame_events_def Let_def sample_config_def signalled_def numeral_2_eq_2)

lemma sample_exhausted_facts:
  "\<not> gate_fails sample_exhausted"
  "session_setup sample_config sample_exhausted
     = (None, setup_events sample_config (default_intrinsics (1920, 1080)))"
  "iters sample_exhausted
     = [sample_pass 101 (Inr (Some [1], [], None)), sample_pass 102 (Inr (Some [2], [], None))]
         @ sample_disk_pass # [sample_pass 132 (Inr (Some [4], [], None))]"
  "t_start sample_exhausted = 100" "write_meta sample_exhausted = None"
  "now_iso sample_exhausted = ''2024-01-01T12:00:00''"
  by (simp_all add: gate_fails_def sample_exhausted_def sample_env_def session_setup_def
      setup_events_def resolve_intrinsics_def Let_def)

lemma sample_meta_refused_facts:
  "\<not> gate_fails sample_meta_refused"
  "session_setup sample_config sample_meta_refused
     = (None, setup_events sample_config (default_intrinsics (1920, 1080)))"
  "iters sample_meta_refused
     = [sample_pass 101 (Inr (Some [1], [], None)), sample_pass 102 (Inr (Some [2], [], None))]
         @ sample_disk_pass # [sample_pass 132 (Inr (Some [4], [], None))]"
  "t_start sample_meta_refused = 100" "write_meta sample_meta_refused = Some OSError"
  "loop_init sample_config sample_meta_refused True evs
     = loop_init sample_config sample_exhausted True evs"
  by (simp_all add: gate_fails_def sample_meta_refused_def sample_exhausted_def sample_env_def
      session_setup_def setup_events_def resolve_intrinsics_def Let_def loop_init_def)

lemma sample_disk_pass_facts:
  "\<not> max_duration sample_config < t_loop sample_disk_pass - 100"
  "30 < t_check sample_disk_pass - last_status_time sample_two_frames"
  "get_disk_usage_percent (disk_usage sample_disk_pass) = Inr 95"
  "max_disk_usage sample_config < 95"
  "output_dir sample_config = [''recordings''] @ [''session_'' @ ''20240101_120000'']"
  by (simp_all add: sample_disk_pass_def sample_pass_def sample_config_def
      sample_two_frames_def disk_usage_95)

lemma sample_two_frames_fields:
  "frame_count sample_two_frames = 2" "timestamps sample_two_frames = [1000, 2000]"
  "max_duration sample_config = 3600" "max_disk_usage sample_config = 90"
  by (simp_all add: sample_two_frames_def sample_config_def)

lemma sample_meta_refused_run:
  "record_session sample_config sample_meta_refused True
     = \<lparr>status = Raised OSError, events = trace sample_two_frames @ [TrackerExit],
        run_flag = False, n_frames = 2, stamps = [1000, 2000]\<rparr>"
  using disk_exit_session(2)
    [OF sample_meta_refused_facts(1) sample_meta_refused_facts(2) sample_meta_refused_facts(3)
      sample_pre_loop [folded sample_meta_refused_facts(4) sample_meta_refused_facts(6)]
      sample_disk_pass_facts(1) [folded sample_meta_refused_facts(4)]
      sample_disk_pass_facts(2) sample_disk_pass_facts(3) sample_disk_pass_facts(4)]
  by (simp add: close_session_def Let_def sample_meta_refused_facts(5) sample_two_frames_fields)

text \<open>The sample of 55 used bytes of 100 lies above a threshold of 55 once rounded.\<close>

lemma threshold_met_after_rounding:
  "frame_step (sample_config\<lparr>max_disk_usage := 55\<rparr>) 100
     (sample_disk_pass\<lparr>disk_usage := Inr (100, 55, 45)\<rparr>) sample_two_frames
   = Break (sample_two_frames\<lparr>running := False\<rparr>)"
  by (rule disk_break [where usage = "55 + 1 / 2 ^ 47"])
    (simp_all add: disk_usage_55 sample_disk_pass_def sample_pass_def sample_config_def
      sample_two_frames_def)




section \<open>What a loss of power can take from the pose stream\<close>

lemma fold_store_step_unsynced:
  "\<forall>p. Fsync p \<notin> set evs \<Longrightarrow> snd (fold store_step evs (f, d)) = d"
proof (induction evs arbitrary: f)
  case Nil
  then show ?case by simp
next
  case (Cons e evs)
  then have "\<forall>p. e \<noteq> Fsync p" and "\<forall>p. Fsync p \<notin> set evs" by auto
  with Cons.IH show ?case by (cases e) auto
qed

lemma on_medium_unsynced: "\<forall>p. Fsync p \<notin> set evs \<Longrightarrow> on_medium f d evs = d"
  by (simp add: on_medium_def fold_store_step_unsynced)

lemma blocks_unsynced: "Fsync p \<notin> set (blocks cfg rows)"
  by (induction rows rule: rev_induct)
    (auto simp: blocks_snoc frame_events_def append_line_def)

lemma setup_unsynced: "Fsync p \<notin> set (snd (session_setup cfg env))"
  by (simp add: session_setup_def Let_def write_doc_def split: option.splits)

text \<open>No session asks for a file to be forced to the medium.\<close>

lemma session_unsynced: "Fsync p \<notin> set (events (record_session cfg env r))"
proof (cases "gate_fails env")
  case True
  from backoff_cases [OF this, of cfg r] show ?thesis by (auto simp: backoff_def)
next
  case False
  then obtain frame hs bg where g: "tracker_init env = None"
    "first_frame env = Inr (Some frame, hs, bg)"
    by (rule gate_passes)
  obtain x evs where su: "session_setup cfg env = (x, evs)" by (cases "session_setup cfg env")
  from setup_unsynced [of p cfg env] su have ns: "Fsync p \<notin> set evs" by simp
  show ?thesis
  proof (cases x)
    case (Some e)
    with su g ns show ?thesis by (simp add: record_session_def)
  next
    case None
    with su have su': "session_setup cfg env = (None, evs)" by simp
    let ?out = "record_session cfg env r"
    from active_shape [OF g su', of r] obtain rows tail closing where
      ev: "events ?out = [TrackerInit, NextFrame] @ evs @ blocks cfg rows @ tail @ closing"
      and tl: "tail = [] \<or> tail = [NextFrame]
        \<or> (\<exists>img ok. tail = [NextFrame, Imwrite (image_file cfg (n_frames ?out)) img ok])"
      and cl: "closing = [] \<or> closing = [TrackerExit]
          \<or> closing = [TrackerExit] @ write_doc (metadata_file cfg)
            (Dump (session_metadata (now_iso env) (n_frames ?out) (stamps ?out)))"
      by blast
    from tl have t: "Fsync p \<notin> set tail" by auto
    from cl have c: "Fsync p \<notin> set closing" by (auto simp: write_doc_def)
    from ns t c show ?thesis by (simp add: ev blocks_unsynced)
  qed
qed

text \<open>Wherever the trace of a session is cut, the medium is guaranteed to hold what it
  held before the session.\<close>

lemma unsynced_at_every_cut:
  "on_medium f d (take k (events (record_session cfg env r))) = d"
proof (rule on_medium_unsynced, rule allI)
  fix p
  show "Fsync p \<notin> set (take k (events (record_session cfg env r)))"
    using session_unsynced [of p cfg env r] by (auto dest: in_set_takeD)
qed

lemma sample_cut:
  "take 20 (events (record_session sample_config sample_session True))
     = [TrackerInit, NextFrame]
        @ setup_events sample_config (default_intrinsics (1920, 1080))
        @ frame_events sample_config 0 [1] True (frame_pose 0 1000 [] JNull)
        @ frame_events sample_config 1 [2] True
            (frame_pose 1 2000
               [JObj [(''handedness'', JStr ''Right''), (''confidence'', JNum 0.9),
                      (''landmarks_2d'', JList []), (''landmarks_3d'', JList [])]] JNull)"
  by (simp add: sample_run setup_events_def frame_events_def write_doc_def append_line_def)

lemma sample_cut_pose_calls:
  "filter (on_path (poses_file sample_config))
     (take 20 (events (record_session sample_config sample_session True)))
     = [Open (poses_file sample_config) ModeW,
        Write (poses_file sample_config) (Line (header (default_intrinsics (1920, 1080)))),
        Close (poses_file sample_config),
        Open (poses_file sample_config) ModeA,
        Write (poses_file sample_config) (Line (frame_pose 0 1000 [] JNull)),
        Close (poses_file sample_config),
        Open (poses_file sample_config) ModeA,
        Write (poses_file sample_config)
          (Line (frame_pose 1 2000
               [JObj [(''handedness'', JStr ''Right''), (''confidence'', JNum 0.9),
                      (''landmarks_2d'', JList []), (''landmarks_3d'', JList [])]] JNull)),
        Close (poses_file sample_config)]"
  unfolding sample_cut
  by (simp add: setup_events_def frame_events_def write_doc_def append_line_def
      poses_file_def camera_info_file_def image_file_def rgb_dir_def sample_config_def)

text \<open>
  C3. The sample session, cut by a loss of power after twenty calls: two frame records have
  been appended, each through a handle that was opened and closed. The calls made on
  \<open>hand_poses.jsonl\<close> are the nine listed, none of which forces the file to the
  medium; the running system sees the header and both records; nothing of the file is
  guaranteed to be on the medium, so both completed records can be lost, not only the one
  in flight.
\<close>

theorem pose_records_not_durable:
  "filter (on_path (poses_file sample_config))
     (take 20 (events (record_session sample_config sample_session True)))
     = [Open (poses_file sample_config) ModeW,
        Write (poses_file sample_config) (Line (header (default_intrinsics (1920, 1080)))),
        Close (poses_file sample_config),
        Open (poses_file sample_config) ModeA,
        Write (poses_file sample_config) (Line (frame_pose 0 1000 [] JNull)),
        Close (poses_file sample_config),
        Open (poses_file sample_config) ModeA,
        Write (poses_file sample_config)
          (Line (frame_pose 1 2000
               [JObj [(''handedness'', JStr ''Right''), (''confidence'', JNum 0.9),
                      (''landmarks_2d'', JList []), (''landmarks_3d'', JList [])]] JNull)),
        Close (poses_file sample_config)]
   \<and> files (replay \<lparr>dirs = {}, files = Map.empty\<rparr>
        (take 20 (events (record_session sample_config sample_session True))))
        (poses_file sample_config)
     = Some [Line (header (default_intrinsics (1920, 1080))),
             Line (frame_pose 0 1000 [] JNull),
             Line (frame_pose 1 2000
               [JObj [(''handedness'', JStr ''Right''), (''confidence'', JNum 0.9),
                      (''landmarks_2d'', JList []), (''landmarks_3d'', JList [])]] JNull)]
   \<and> on_medium \<lparr>dirs = {}, files = Map.empty\<rparr> Map.empty
        (take 20 (events (record_session sample_config sample_session True)))
        (poses_file sample_config)
     = None"
proof -
  let ?cut = "take 20 (events (record_session sample_config sample_session True))"
  let ?p = "poses_file sample_config"
  let ?f = "\<lparr>dirs = {}, files = Map.empty\<rparr>"
  have "files (replay ?f ?cut) ?p = files (replay ?f (filter (on_path ?p) ?cut)) ?p"
    using files_replay_filter [of ?f ?cut ?p] by simp
  also have "\<dots> = Some [Line (header (default_intrinsics (1920, 1080))),
             Line (frame_pose 0 1000 [] JNull),
             Line (frame_pose 1 2000
               [JObj [(''handedness'', JStr ''Right''), (''confidence'', JNum 0.9),
                      (''landmarks_2d'', JList []), (''landmarks_3d'', JList [])]] JNull)]"
    unfolding sample_cut_pose_calls by (simp add: contents_def)
  finally have seen: "files (replay ?f ?cut) ?p = Some [Line (header (default_intrinsics (1920, 1080))),
             Line (frame_pose 0 1000 [] JNull),
             Line (frame_pose 1 2000
               [JObj [(''handedness'', JStr ''Right''), (''confidence'', JNum 0.9),
                      (''landmarks_2d'', JList []), (''landmarks_3d'', JList [])]] JNull)]" .
  have "on_medium ?f Map.empty ?cut = Map.empty" by (rule unsynced_at_every_cut)
  then have "on_medium ?f Map.empty ?cut ?p = None" by simp
  with seen sample_cut_pose_calls show ?thesis by simp
qed

end
